theory Spec2Isabelle
  imports Main "HOL-Library.Multiset"
begin

section \<open>Strings of the host language\<close>

text \<open>
  A string of the source is a sequence of UTF-16 code units; a code unit is modelled as a
  natural number, so that the character classes of the source's regular expressions
  (including the Hangul range) are written with the code points the source names.
  \<open>js\<close> reads an ASCII literal into that representation.
\<close>

type_synonym jsstring = "nat list"

definition js :: "string \<Rightarrow> jsstring" where
  "js s = map of_char s"

text \<open>\<open>\s\<close> of a regular expression, which is also what \<open>String.prototype.trim\<close> strips.\<close>

definition isWhiteSpace :: "nat \<Rightarrow> bool" where
  "isWhiteSpace c \<longleftrightarrow>
     (9 \<le> c \<and> c \<le> 13) \<or> c = 32 \<or> c = 160 \<or> c = 5760 \<or> (8192 \<le> c \<and> c \<le> 8202) \<or>
     c = 8232 \<or> c = 8233 \<or> c = 8239 \<or> c = 8287 \<or> c = 12288 \<or> c = 65279"

text \<open>\<open>\d\<close> is \<open>[0-9]\<close>, \<open>\w\<close> is \<open>[A-Za-z0-9_]\<close>; the Hangul syllables are U+AC00 to U+D7A3.\<close>

definition isDigit :: "nat \<Rightarrow> bool" where
  "isDigit c \<longleftrightarrow> 48 \<le> c \<and> c \<le> 57"

definition isWordChar :: "nat \<Rightarrow> bool" where
  "isWordChar c \<longleftrightarrow> (65 \<le> c \<and> c \<le> 90) \<or> (97 \<le> c \<and> c \<le> 122) \<or> isDigit c \<or> c = 95"

definition isHangul :: "nat \<Rightarrow> bool" where
  "isHangul c \<longleftrightarrow> 44032 \<le> c \<and> c \<le> 55203"

text \<open>
  \<open>toLowerCase\<close> works on code points: a high surrogate followed by a low surrogate is one
  code point, any other code unit is a code point of its own.
\<close>

definition isHighSurrogate :: "nat \<Rightarrow> bool" where
  "isHighSurrogate c \<longleftrightarrow> 55296 \<le> c \<and> c \<le> 56319"

definition isLowSurrogate :: "nat \<Rightarrow> bool" where
  "isLowSurrogate c \<longleftrightarrow> 56320 \<le> c \<and> c \<le> 57343"

fun codePoints :: "jsstring \<Rightarrow> nat list" where
  "codePoints (h # l # s) =
     (if isHighSurrogate h \<and> isLowSurrogate l
      then (65536 + (h - 55296) * 1024 + (l - 56320)) # codePoints s
      else h # codePoints (l # s))"
| "codePoints s = s"

definition codeUnits :: "nat \<Rightarrow> jsstring" where
  "codeUnits cp =
     (if cp < 65536 then [cp]
      else [55296 + (cp - 65536) div 1024, 56320 + (cp - 65536) mod 1024])"

text \<open>
  The case data of Unicode 14.0, the version that Node.js 18, the host named in the
  repository's Dockerfile, was released with. \<open>lowerRanges\<close> holds the simple lower-case mappings: an entry
  \<open>(lo, hi, step, target)\<close> sends \<open>lo\<close> to \<open>target\<close> and every \<open>step\<close>-th code point up to
  \<open>hi\<close> to the code point at the same distance from \<open>target\<close>. \<open>casedRanges\<close> and
  \<open>caseIgnorableRanges\<close> are the properties Cased and Case_Ignorable, as ranges.
\<close>

definition lowerRanges :: "(nat \<times> nat \<times> nat \<times> nat) list" where
  "lowerRanges =
     [(65, 90, 1, 97), (192, 214, 1, 224), (216, 222, 1, 248), (256, 302, 2, 257), (306, 310, 2,
      307), (313, 327, 2, 314), (330, 374, 2, 331), (376, 376, 1, 255), (377, 381, 2, 378),
      (385, 385, 1, 595), (386, 388, 2, 387), (390, 390, 1, 596), (391, 391, 1, 392), (393, 394,
      1, 598), (395, 395, 1, 396), (398, 398, 1, 477), (399, 399, 1, 601), (400, 400, 1, 603),
      (401, 401, 1, 402), (403, 403, 1, 608), (404, 404, 1, 611), (406, 406, 1, 617), (407, 407,
      1, 616), (408, 408, 1, 409), (412, 412, 1, 623), (413, 413, 1, 626), (415, 415, 1, 629),
      (416, 420, 2, 417), (422, 422, 1, 640), (423, 423, 1, 424), (425, 425, 1, 643), (428, 428,
      1, 429), (430, 430, 1, 648), (431, 431, 1, 432), (433, 434, 1, 650), (435, 437, 2, 436),
      (439, 439, 1, 658), (440, 440, 1, 441), (444, 444, 1, 445), (452, 452, 1, 454), (453, 453,
      1, 454), (455, 455, 1, 457), (456, 456, 1, 457), (458, 458, 1, 460), (459, 475, 2, 460),
      (478, 494, 2, 479), (497, 497, 1, 499), (498, 500, 2, 499), (502, 502, 1, 405), (503, 503,
      1, 447), (504, 542, 2, 505), (544, 544, 1, 414), (546, 562, 2, 547), (570, 570, 1, 11365),
      (571, 571, 1, 572), (573, 573, 1, 410), (574, 574, 1, 11366), (577, 577, 1, 578), (579,
      579, 1, 384), (580, 580, 1, 649), (581, 581, 1, 652), (582, 590, 2, 583), (880, 882, 2,
      881), (886, 886, 1, 887), (895, 895, 1, 1011), (902, 902, 1, 940), (904, 906, 1, 941),
      (908, 908, 1, 972), (910, 911, 1, 973), (913, 929, 1, 945), (931, 939, 1, 963), (975, 975,
      1, 983), (984, 1006, 2, 985), (1012, 1012, 1, 952), (1015, 1015, 1, 1016), (1017, 1017, 1,
      1010), (1018, 1018, 1, 1019), (1021, 1023, 1, 891), (1024, 1039, 1, 1104), (1040, 1071, 1,
      1072), (1120, 1152, 2, 1121), (1162, 1214, 2, 1163), (1216, 1216, 1, 1231), (1217, 1229,
      2, 1218), (1232, 1326, 2, 1233), (1329, 1366, 1, 1377), (4256, 4293, 1, 11520), (4295,
      4295, 1, 11559), (4301, 4301, 1, 11565), (5024, 5103, 1, 43888), (5104, 5109, 1, 5112),
      (7312, 7354, 1, 4304), (7357, 7359, 1, 4349), (7680, 7828, 2, 7681), (7838, 7838, 1, 223),
      (7840, 7934, 2, 7841), (7944, 7951, 1, 7936), (7960, 7965, 1, 7952), (7976, 7983, 1,
      7968), (7992, 7999, 1, 7984), (8008, 8013, 1, 8000), (8025, 8031, 2, 8017), (8040, 8047,
      1, 8032), (8072, 8079, 1, 8064), (8088, 8095, 1, 8080), (8104, 8111, 1, 8096), (8120,
      8121, 1, 8112), (8122, 8123, 1, 8048), (8124, 8124, 1, 8115), (8136, 8139, 1, 8050),
      (8140, 8140, 1, 8131), (8152, 8153, 1, 8144), (8154, 8155, 1, 8054), (8168, 8169, 1,
      8160), (8170, 8171, 1, 8058), (8172, 8172, 1, 8165), (8184, 8185, 1, 8056), (8186, 8187,
      1, 8060), (8188, 8188, 1, 8179), (8486, 8486, 1, 969), (8490, 8490, 1, 107), (8491, 8491,
      1, 229), (8498, 8498, 1, 8526), (8544, 8559, 1, 8560), (8579, 8579, 1, 8580), (9398, 9423,
      1, 9424), (11264, 11311, 1, 11312), (11360, 11360, 1, 11361), (11362, 11362, 1, 619),
      (11363, 11363, 1, 7549), (11364, 11364, 1, 637), (11367, 11371, 2, 11368), (11373, 11373,
      1, 593), (11374, 11374, 1, 625), (11375, 11375, 1, 592), (11376, 11376, 1, 594), (11378,
      11378, 1, 11379), (11381, 11381, 1, 11382), (11390, 11391, 1, 575), (11392, 11490, 2,
      11393), (11499, 11501, 2, 11500), (11506, 11506, 1, 11507), (42560, 42604, 2, 42561),
      (42624, 42650, 2, 42625), (42786, 42798, 2, 42787), (42802, 42862, 2, 42803), (42873,
      42875, 2, 42874), (42877, 42877, 1, 7545), (42878, 42886, 2, 42879), (42891, 42891, 1,
      42892), (42893, 42893, 1, 613), (42896, 42898, 2, 42897), (42902, 42920, 2, 42903),
      (42922, 42922, 1, 614), (42923, 42923, 1, 604), (42924, 42924, 1, 609), (42925, 42925, 1,
      620), (42926, 42926, 1, 618), (42928, 42928, 1, 670), (42929, 42929, 1, 647), (42930,
      42930, 1, 669), (42931, 42931, 1, 43859), (42932, 42946, 2, 42933), (42948, 42948, 1,
      42900), (42949, 42949, 1, 642), (42950, 42950, 1, 7566), (42951, 42953, 2, 42952), (42960,
      42960, 1, 42961), (42966, 42968, 2, 42967), (42997, 42997, 1, 42998), (65313, 65338, 1,
      65345), (66560, 66599, 1, 66600), (66736, 66771, 1, 66776), (66928, 66938, 1, 66967),
      (66940, 66954, 1, 66979), (66956, 66962, 1, 66995), (66964, 66965, 1, 67003), (68736,
      68786, 1, 68800), (71840, 71871, 1, 71872), (93760, 93791, 1, 93792), (125184, 125217, 1,
      125218)]"

definition casedRanges :: "(nat \<times> nat) list" where
  "casedRanges =
     [(65, 90), (97, 122), (170, 170), (181, 181), (186, 186), (192, 214), (216, 246), (248,
      442), (444, 447), (452, 659), (661, 696), (704, 705), (736, 740), (837, 837), (880, 883),
      (886, 887), (890, 893), (895, 895), (902, 902), (904, 906), (908, 908), (910, 929), (931,
      1013), (1015, 1153), (1162, 1327), (1329, 1366), (1376, 1416), (4256, 4293), (4295, 4295),
      (4301, 4301), (4304, 4346), (4349, 4351), (5024, 5109), (5112, 5117), (7296, 7304), (7312,
      7354), (7357, 7359), (7424, 7615), (7680, 7957), (7960, 7965), (7968, 8005), (8008, 8013),
      (8016, 8023), (8025, 8025), (8027, 8027), (8029, 8029), (8031, 8061), (8064, 8116), (8118,
      8124), (8126, 8126), (8130, 8132), (8134, 8140), (8144, 8147), (8150, 8155), (8160, 8172),
      (8178, 8180), (8182, 8188), (8305, 8305), (8319, 8319), (8336, 8348), (8450, 8450), (8455,
      8455), (8458, 8467), (8469, 8469), (8473, 8477), (8484, 8484), (8486, 8486), (8488, 8488),
      (8490, 8493), (8495, 8500), (8505, 8505), (8508, 8511), (8517, 8521), (8526, 8526), (8544,
      8575), (8579, 8580), (9398, 9449), (11264, 11492), (11499, 11502), (11506, 11507), (11520,
      11557), (11559, 11559), (11565, 11565), (42560, 42605), (42624, 42653), (42786, 42887),
      (42891, 42894), (42896, 42954), (42960, 42961), (42963, 42963), (42965, 42969), (42997,
      42998), (43000, 43002), (43824, 43866), (43868, 43880), (43888, 43967), (64256, 64262),
      (64275, 64279), (65313, 65338), (65345, 65370), (66560, 66639), (66736, 66771), (66776,
      66811), (66928, 66938), (66940, 66954), (66956, 66962), (66964, 66965), (66967, 66977),
      (66979, 66993), (66995, 67001), (67003, 67004), (67456, 67456), (67459, 67461), (67463,
      67504), (67506, 67514), (68736, 68786), (68800, 68850), (71840, 71903), (93760, 93823),
      (119808, 119892), (119894, 119964), (119966, 119967), (119970, 119970), (119973, 119974),
      (119977, 119980), (119982, 119993), (119995, 119995), (119997, 120003), (120005, 120069),
      (120071, 120074), (120077, 120084), (120086, 120092), (120094, 120121), (120123, 120126),
      (120128, 120132), (120134, 120134), (120138, 120144), (120146, 120485), (120488, 120512),
      (120514, 120538), (120540, 120570), (120572, 120596), (120598, 120628), (120630, 120654),
      (120656, 120686), (120688, 120712), (120714, 120744), (120746, 120770), (120772, 120779),
      (122624, 122633), (122635, 122654), (125184, 125251), (127280, 127305), (127312, 127337),
      (127344, 127369)]"

definition caseIgnorableRanges :: "(nat \<times> nat) list" where
  "caseIgnorableRanges =
     [(39, 39), (46, 46), (58, 58), (94, 94), (96, 96), (168, 168), (173, 173), (175, 175),
      (180, 180), (183, 184), (688, 879), (884, 885), (890, 890), (900, 901), (903, 903), (1155,
      1161), (1369, 1369), (1375, 1375), (1425, 1469), (1471, 1471), (1473, 1474), (1476, 1477),
      (1479, 1479), (1524, 1524), (1536, 1541), (1552, 1562), (1564, 1564), (1600, 1600), (1611,
      1631), (1648, 1648), (1750, 1757), (1759, 1768), (1770, 1773), (1807, 1807), (1809, 1809),
      (1840, 1866), (1958, 1968), (2027, 2037), (2042, 2042), (2045, 2045), (2070, 2093), (2137,
      2139), (2184, 2184), (2192, 2193), (2200, 2207), (2249, 2306), (2362, 2362), (2364, 2364),
      (2369, 2376), (2381, 2381), (2385, 2391), (2402, 2403), (2417, 2417), (2433, 2433), (2492,
      2492), (2497, 2500), (2509, 2509), (2530, 2531), (2558, 2558), (2561, 2562), (2620, 2620),
      (2625, 2626), (2631, 2632), (2635, 2637), (2641, 2641), (2672, 2673), (2677, 2677), (2689,
      2690), (2748, 2748), (2753, 2757), (2759, 2760), (2765, 2765), (2786, 2787), (2810, 2815),
      (2817, 2817), (2876, 2876), (2879, 2879), (2881, 2884), (2893, 2893), (2901, 2902), (2914,
      2915), (2946, 2946), (3008, 3008), (3021, 3021), (3072, 3072), (3076, 3076), (3132, 3132),
      (3134, 3136), (3142, 3144), (3146, 3149), (3157, 3158), (3170, 3171), (3201, 3201), (3260,
      3260), (3263, 3263), (3270, 3270), (3276, 3277), (3298, 3299), (3328, 3329), (3387, 3388),
      (3393, 3396), (3405, 3405), (3426, 3427), (3457, 3457), (3530, 3530), (3538, 3540), (3542,
      3542), (3633, 3633), (3636, 3642), (3654, 3662), (3761, 3761), (3764, 3772), (3782, 3782),
      (3784, 3789), (3864, 3865), (3893, 3893), (3895, 3895), (3897, 3897), (3953, 3966), (3968,
      3972), (3974, 3975), (3981, 3991), (3993, 4028), (4038, 4038), (4141, 4144), (4146, 4151),
      (4153, 4154), (4157, 4158), (4184, 4185), (4190, 4192), (4209, 4212), (4226, 4226), (4229,
      4230), (4237, 4237), (4253, 4253), (4348, 4348), (4957, 4959), (5906, 5908), (5938, 5939),
      (5970, 5971), (6002, 6003), (6068, 6069), (6071, 6077), (6086, 6086), (6089, 6099), (6103,
      6103), (6109, 6109), (6155, 6159), (6211, 6211), (6277, 6278), (6313, 6313), (6432, 6434),
      (6439, 6440), (6450, 6450), (6457, 6459), (6679, 6680), (6683, 6683), (6742, 6742), (6744,
      6750), (6752, 6752), (6754, 6754), (6757, 6764), (6771, 6780), (6783, 6783), (6823, 6823),
      (6832, 6862), (6912, 6915), (6964, 6964), (6966, 6970), (6972, 6972), (6978, 6978), (7019,
      7027), (7040, 7041), (7074, 7077), (7080, 7081), (7083, 7085), (7142, 7142), (7144, 7145),
      (7149, 7149), (7151, 7153), (7212, 7219), (7222, 7223), (7288, 7293), (7376, 7378), (7380,
      7392), (7394, 7400), (7405, 7405), (7412, 7412), (7416, 7417), (7468, 7530), (7544, 7544),
      (7579, 7679), (8125, 8125), (8127, 8129), (8141, 8143), (8157, 8159), (8173, 8175), (8189,
      8190), (8203, 8207), (8216, 8217), (8228, 8228), (8231, 8231), (8234, 8238), (8288, 8292),
      (8294, 8303), (8305, 8305), (8319, 8319), (8336, 8348), (8400, 8432), (11388, 11389),
      (11503, 11505), (11631, 11631), (11647, 11647), (11744, 11775), (11823, 11823), (12293,
      12293), (12330, 12333), (12337, 12341), (12347, 12347), (12441, 12446), (12540, 12542),
      (40981, 40981), (42232, 42237), (42508, 42508), (42607, 42610), (42612, 42621), (42623,
      42623), (42652, 42655), (42736, 42737), (42752, 42785), (42864, 42864), (42888, 42890),
      (42994, 42996), (43000, 43001), (43010, 43010), (43014, 43014), (43019, 43019), (43045,
      43046), (43052, 43052), (43204, 43205), (43232, 43249), (43263, 43263), (43302, 43309),
      (43335, 43345), (43392, 43394), (43443, 43443), (43446, 43449), (43452, 43453), (43471,
      43471), (43493, 43494), (43561, 43566), (43569, 43570), (43573, 43574), (43587, 43587),
      (43596, 43596), (43632, 43632), (43644, 43644), (43696, 43696), (43698, 43700), (43703,
      43704), (43710, 43711), (43713, 43713), (43741, 43741), (43756, 43757), (43763, 43764),
      (43766, 43766), (43867, 43871), (43881, 43883), (44005, 44005), (44008, 44008), (44013,
      44013), (64286, 64286), (64434, 64450), (65024, 65039), (65043, 65043), (65056, 65071),
      (65106, 65106), (65109, 65109), (65279, 65279), (65287, 65287), (65294, 65294), (65306,
      65306), (65342, 65342), (65344, 65344), (65392, 65392), (65438, 65439), (65507, 65507),
      (65529, 65531), (66045, 66045), (66272, 66272), (66422, 66426), (67456, 67461), (67463,
      67504), (67506, 67514), (68097, 68099), (68101, 68102), (68108, 68111), (68152, 68154),
      (68159, 68159), (68325, 68326), (68900, 68903), (69291, 69292), (69446, 69456), (69506,
      69509), (69633, 69633), (69688, 69702), (69744, 69744), (69747, 69748), (69759, 69761),
      (69811, 69814), (69817, 69818), (69821, 69821), (69826, 69826), (69837, 69837), (69888,
      69890), (69927, 69931), (69933, 69940), (70003, 70003), (70016, 70017), (70070, 70078),
      (70089, 70092), (70095, 70095), (70191, 70193), (70196, 70196), (70198, 70199), (70206,
      70206), (70367, 70367), (70371, 70378), (70400, 70401), (70459, 70460), (70464, 70464),
      (70502, 70508), (70512, 70516), (70712, 70719), (70722, 70724), (70726, 70726), (70750,
      70750), (70835, 70840), (70842, 70842), (70847, 70848), (70850, 70851), (71090, 71093),
      (71100, 71101), (71103, 71104), (71132, 71133), (71219, 71226), (71229, 71229), (71231,
      71232), (71339, 71339), (71341, 71341), (71344, 71349), (71351, 71351), (71453, 71455),
      (71458, 71461), (71463, 71467), (71727, 71735), (71737, 71738), (71995, 71996), (71998,
      71998), (72003, 72003), (72148, 72151), (72154, 72155), (72160, 72160), (72193, 72202),
      (72243, 72248), (72251, 72254), (72263, 72263), (72273, 72278), (72281, 72283), (72330,
      72342), (72344, 72345), (72752, 72758), (72760, 72765), (72767, 72767), (72850, 72871),
      (72874, 72880), (72882, 72883), (72885, 72886), (73009, 73014), (73018, 73018), (73020,
      73021), (73023, 73029), (73031, 73031), (73104, 73105), (73109, 73109), (73111, 73111),
      (73459, 73460), (78896, 78904), (92912, 92916), (92976, 92982), (92992, 92995), (94031,
      94031), (94095, 94111), (94176, 94177), (94179, 94180), (110576, 110579), (110581,
      110587), (110589, 110590), (113821, 113822), (113824, 113827), (118528, 118573), (118576,
      118598), (119143, 119145), (119155, 119170), (119173, 119179), (119210, 119213), (119362,
      119364), (121344, 121398), (121403, 121452), (121461, 121461), (121476, 121476), (121499,
      121503), (121505, 121519), (122880, 122886), (122888, 122904), (122907, 122913), (122915,
      122916), (122918, 122922), (123184, 123197), (123566, 123566), (123628, 123631), (125136,
      125142), (125252, 125259), (127995, 127999), (917505, 917505), (917536, 917631), (917760,
      917999)]"

definition inRanges :: "nat \<Rightarrow> (nat \<times> nat) list \<Rightarrow> bool" where
  "inRanges c rs = list_ex (\<lambda>(lo, hi). lo \<le> c \<and> c \<le> hi) rs"

definition isCased :: "nat \<Rightarrow> bool" where
  "isCased c = inRanges c casedRanges"

definition isCaseIgnorable :: "nat \<Rightarrow> bool" where
  "isCaseIgnorable c = inRanges c caseIgnorableRanges"

definition lowerSimple :: "nat \<Rightarrow> nat" where
  "lowerSimple c =
     (case find (\<lambda>(lo, hi, step, target). lo \<le> c \<and> c \<le> hi \<and> (c - lo) mod step = 0)
             lowerRanges of
        None \<Rightarrow> c
      | Some (lo, hi, step, target) \<Rightarrow> target + (c - lo))"

text \<open>
  The lower case of one code point outside any context. Below U+0080 only the capitals
  \<open>A\<close> to \<open>Z\<close> change; U+0130 becomes \<open>i\<close> followed by U+0307; every other code point has
  its simple mapping.
\<close>

definition lowerOf :: "nat \<Rightarrow> nat list" where
  "lowerOf c =
     (if c < 128 then [if 65 \<le> c \<and> c \<le> 90 then c + 32 else c]
      else if c = 304 then [105, 775]
      else [lowerSimple c])"

text \<open>
  The one rule that looks at the context: a capital sigma (U+03A3) becomes the final sigma
  (U+03C2) when, skipping case-ignorable code points, a cased letter stands before it and
  none stands after it; otherwise it becomes the small sigma (U+03C3). \<open>casedNext\<close> is that
  scan, used forwards on the rest of the string and backwards on the reversed prefix.
\<close>

fun casedNext :: "nat list \<Rightarrow> bool" where
  "casedNext [] = False"
| "casedNext (c # s) = (if isCaseIgnorable c then casedNext s else isCased c)"

fun lowerFrom :: "nat list \<Rightarrow> nat list \<Rightarrow> nat list" where
  "lowerFrom before [] = []"
| "lowerFrom before (c # rest) =
     (if c = 931 then [if casedNext before \<and> \<not> casedNext rest then 962 else 963]
      else lowerOf c) @ lowerFrom (c # before) rest"

definition toLowerCase :: "jsstring \<Rightarrow> jsstring" where
  "toLowerCase s = concat (map codeUnits (lowerFrom [] (codePoints s)))"

definition trim :: "jsstring \<Rightarrow> jsstring" where
  "trim s = rev (dropWhile isWhiteSpace (rev (dropWhile isWhiteSpace s)))"

definition startsWith :: "jsstring \<Rightarrow> jsstring \<Rightarrow> bool" where
  "startsWith s p \<longleftrightarrow> take (length p) s = p"

text \<open>\<open>s.includes(p)\<close>: \<open>p\<close> occurs in \<open>s\<close> as a contiguous run.\<close>

fun includesStr :: "jsstring \<Rightarrow> jsstring \<Rightarrow> bool" where
  "includesStr [] p = (p = [])"
| "includesStr (c # s) p = (startsWith (c # s) p \<or> includesStr s p)"

text \<open>The template literal \<open>${n}\<close> of a non-negative integer: its decimal digits.\<close>

fun showNat :: "nat \<Rightarrow> jsstring" where
  "showNat n = (if n < 10 then [48 + n] else showNat (n div 10) @ [48 + n mod 10])"

declare showNat.simps [simp del]

section \<open>The agent's run state and the reasoning callback (react-state.ts)\<close>

record ReActState =
  currentPlan :: "jsstring list"
  completedActions :: "jsstring list"
  observations :: "jsstring list"
  currentThought :: jsstring
  needsReplan :: bool
  errorCount :: nat
  apiCallCount :: nat

text \<open>
  The module-level variables of react-state.ts and the storage engine's side are threaded
  as one value. A registered callback either returns (\<open>None\<close>) or throws (\<open>Some\<close> of the
  thrown message); \<open>emitted\<close> records the messages delivered to a callback that returned,
  \<open>dbLog\<close> the statements handed to the storage engine, in order.
\<close>

record world =
  react :: ReActState
  globalReasoningCallback :: "(jsstring \<Rightarrow> jsstring option) option"
  emitted :: "jsstring list"
  dbLog :: "jsstring list"

definition incrementErrorCount :: "world \<Rightarrow> world" where
  "incrementErrorCount w = w\<lparr>react := (react w)\<lparr>errorCount := errorCount (react w) + 1\<rparr>\<rparr>"

definition shouldReplan :: "world \<Rightarrow> bool" where
  "shouldReplan w \<longleftrightarrow> errorCount (react w) > 2 \<or> needsReplan (react w)"


subsection \<open>The vocabulary scrub\<close>

text \<open>
  The regular expressions of \<open>convertToUserFriendlyMessage\<close> are sequences of literals,
  \<open>\s*\<close> and \<open>\s+\<close>, joined by alternation. In every one of them the piece after
  \<open>\s*\<close> or \<open>\s+\<close> is a literal that starts with a non-space code unit, so the
  greedy run of spaces never has to give a code unit back.
\<close>

datatype piece = Lit jsstring | Spaces0 | Spaces1

fun matchPieces :: "piece list \<Rightarrow> jsstring \<Rightarrow> jsstring option" where
  "matchPieces [] s = Some s"
| "matchPieces (Lit l # ps) s =
     (if startsWith s l then matchPieces ps (drop (length l) s) else None)"
| "matchPieces (Spaces0 # ps) s = matchPieces ps (dropWhile isWhiteSpace s)"
| "matchPieces (Spaces1 # ps) s =
     (case s of [] \<Rightarrow> None
      | c # t \<Rightarrow> if isWhiteSpace c then matchPieces ps (dropWhile isWhiteSpace t) else None)"

fun matchAlternatives :: "piece list list \<Rightarrow> jsstring \<Rightarrow> jsstring option" where
  "matchAlternatives [] s = None"
| "matchAlternatives (a # alts) s =
     (case matchPieces a s of Some r \<Rightarrow> Some r | None \<Rightarrow> matchAlternatives alts s)"

text \<open>
  \<open>s.replace(/.../g, rep)\<close>: at each position the alternatives are tried in order; a
  match is replaced and the scan goes on behind it, otherwise the code unit is copied.
  No pattern of the source matches the empty string, so a match always consumes.
\<close>

function replaceAllRx :: "piece list list \<Rightarrow> jsstring \<Rightarrow> jsstring \<Rightarrow> jsstring" where
  "replaceAllRx alts rep [] = []"
| "replaceAllRx alts rep (c # s) =
     (case matchAlternatives alts (c # s) of
        Some r \<Rightarrow>
          if length r < length (c # s) then rep @ replaceAllRx alts rep r
          else c # replaceAllRx alts rep s
      | None \<Rightarrow> c # replaceAllRx alts rep s)"
  by pat_completeness auto
termination
  by (relation "measure (\<lambda>(alts, rep, s). length s)") auto

text \<open>The Korean words of the scrub, as their code units.\<close>

definition ko_table :: jsstring where "ko_table = [0xD14C, 0xC774, 0xBE14]"
definition ko_lookup :: jsstring where "ko_lookup = [0xC870, 0xD68C]"
definition ko_column :: jsstring where "ko_column = [0xCEEC, 0xB7FC]"
definition ko_schema :: jsstring where "ko_schema = [0xC2A4, 0xD0A4, 0xB9C8]"
definition ko_run :: jsstring where "ko_run = [0xC2E4, 0xD589]"
definition ko_query :: jsstring where "ko_query = [0xCFFC, 0xB9AC]"
definition ko_data :: jsstring where "ko_data = [0xB370, 0xC774, 0xD130]"
definition ko_analysis :: jsstring where "ko_analysis = [0xBD84, 0xC11D]"
definition ko_field :: jsstring where "ko_field = [0xD544, 0xB4DC]"
definition ko_structure :: jsstring where "ko_structure = [0xAD6C, 0xC870]"
definition ko_database :: jsstring where
  "ko_database = [0xB370, 0xC774, 0xD130, 0xBCA0, 0xC774, 0xC2A4]"
definition ko_information :: jsstring where "ko_information = [0xC815, 0xBCF4]"
definition ko_row :: jsstring where "ko_row = [0xD589]"
definition ko_item :: jsstring where "ko_item = [0xD56D, 0xBAA9]"

definition convertToUserFriendlyMessage :: "jsstring \<Rightarrow> jsstring" where
  "convertToUserFriendlyMessage reasoning =
     (replaceAllRx [[Lit ko_analysis, Spaces1, Lit ko_analysis]] ko_analysis
     (replaceAllRx [[Lit ko_data, Spaces1, Lit ko_data]] ko_data
     (replaceAllRx [[Lit ko_row], [Lit (js ''row'')]] ko_item
     (replaceAllRx [[Lit ko_database]] ko_information
     (replaceAllRx [[Lit ko_lookup], [Lit ko_run]] ko_analysis
     (replaceAllRx [[Lit ko_table], [Lit ko_column], [Lit ko_schema], [Lit (js ''SQL'')],
                    [Lit ko_query]] ko_data
     (replaceAllRx [[Lit ko_query, Spaces0, Lit ko_run]] (ko_data @ [32] @ ko_analysis)
     (replaceAllRx [[Lit (js ''SQL''), Spaces0, Lit ko_run]] (ko_data @ [32] @ ko_analysis)
     (replaceAllRx [[Lit ko_schema, Spaces0, Lit ko_lookup]] (ko_structure @ [32] @ ko_analysis)
     (replaceAllRx [[Lit ko_column, Spaces0, Lit ko_lookup]] (ko_field @ [32] @ ko_analysis)
     (replaceAllRx [[Lit ko_table, Spaces0, Lit ko_lookup]] (ko_data @ [32] @ ko_analysis)
        reasoning)))))))))))"

subsection \<open>Errors thrown inside a tool\<close>

text \<open>
  The tools throw \<open>Error\<close> objects that differ in their message only. Each throw site
  is one constructor: the SELECT-only guard, the unsupported-syntax guard (with the token
  found), the table guard (with the table name), a failure reported by the storage engine
  (with its message), and whatever a reasoning callback threw.
\<close>

datatype thrown =
    ValidationError
  | UnsupportedSyntax jsstring
  | ScopeViolation jsstring
  | EngineError jsstring
  | CallbackError jsstring

text \<open>The message handed to the callback: the scrubbed reasoning behind the optional prefix.\<close>

definition finalMessage :: "jsstring option \<Rightarrow> jsstring \<Rightarrow> jsstring" where
  "finalMessage prefix reasoning =
     (let userFriendlyReasoning = convertToUserFriendlyMessage reasoning
      in case prefix of
           None \<Rightarrow> userFriendlyReasoning
         | Some p \<Rightarrow> if p = [] then userFriendlyReasoning else p @ [32] @ userFriendlyReasoning)"

text \<open>
  \<open>callReasoningCallback\<close> has no \<open>try\<close> of its own: \<open>Inl\<close> is the exception that
  leaves it when the callback throws.
\<close>

definition callReasoningCallback ::
  "jsstring \<Rightarrow> jsstring option \<Rightarrow> world \<Rightarrow> (thrown + unit) \<times> world" where
  "callReasoningCallback reasoning prefix w =
     (case globalReasoningCallback w of
        None \<Rightarrow> (Inr (), w)
      | Some callback \<Rightarrow>
          if reasoning = [] then (Inr (), w)
          else
            (case callback (finalMessage prefix reasoning) of
               Some e \<Rightarrow> (Inl (CallbackError e), w)
             | None \<Rightarrow> (Inr (), w\<lparr>emitted := emitted w @ [finalMessage prefix reasoning]\<rparr>)))"

section \<open>The query tools (react-tools.ts)\<close>

text \<open>
  \<open>db.select\<close> never throws: it returns the rows or the engine's message. The engine is
  a parameter; every statement handed to it is appended to \<open>dbLog\<close>.
\<close>

type_synonym 'row engine = "jsstring \<Rightarrow> jsstring + 'row list"

definition db_select ::
  "'row engine \<Rightarrow> jsstring \<Rightarrow> world \<Rightarrow> (jsstring + 'row list) \<times> world" where
  "db_select eng q w = (eng q, w\<lparr>dbLog := dbLog w @ [q]\<rparr>)"

text \<open>
  The result object of a tool. Its \<open>message\<close>, \<open>reasoning\<close> and \<open>observation\<close> fields are
  fixed texts that no decision reads; they are left out.
\<close>

record 'row QueryResult =
  success :: bool
  data :: "'row list option"
  rowCount :: "nat option"
  error :: "thrown option"
  shouldReplanFlag :: "bool option"

definition succeeded :: "'row list \<Rightarrow> 'row QueryResult" where
  "succeeded rows =
     \<lparr>success = True, data = Some rows, rowCount = Some (length rows), error = None,
      shouldReplanFlag = None\<rparr>"

text \<open>The \<open>catch\<close> block shared by the storage tools: count the error, report it.\<close>

definition caught :: "thrown \<Rightarrow> world \<Rightarrow> 'row QueryResult \<times> world" where
  "caught e w =
     (let w' = incrementErrorCount w
      in (\<lparr>success = False, data = None, rowCount = None, error = Some e,
           shouldReplanFlag = Some (shouldReplan w')\<rparr>, w'))"

text \<open>\<open>if (reasoning) ReActStateManager.callReasoningCallback(reasoning)\<close>\<close>

definition emitReasoning :: "jsstring option \<Rightarrow> world \<Rightarrow> (thrown + unit) \<times> world" where
  "emitReasoning reasoning w =
     (case reasoning of
        None \<Rightarrow> (Inr (), w)
      | Some r \<Rightarrow> if r = [] then (Inr (), w) else callReasoningCallback r None w)"

definition sqliteIncompatible :: "jsstring list" where
  "sqliteIncompatible =
     [js ''top '', js ''first '', js ''isnull('', js ''charindex('', js ''patindex('',
      js ''datediff('', js ''concat('', js ''row_number()'', js ''over('', js ''pivot'',
      js ''unpivot'', js ''stdev('', js ''stddev('', js ''var_pop('', js ''var_samp('',
      js ''variance('', js ''median('', js ''percentile_cont('', js ''percentile_disc('']"

text \<open>\<open>s.replace(/;+$/, '')\<close>: the run of semicolons at the very end is removed.\<close>

definition stripTrailingSemicolons :: "jsstring \<Rightarrow> jsstring" where
  "stripTrailingSemicolons s = rev (dropWhile (\<lambda>c. c = 59) (rev s))"

definition tableNameOf :: "jsstring \<Rightarrow> jsstring" where
  "tableNameOf fileId = js ''data_'' @ fileId"

definition cleanQuery :: "jsstring \<Rightarrow> jsstring" where
  "cleanQuery query = stripTrailingSemicolons (trim query)"

definition limitedQuery :: "jsstring \<Rightarrow> jsstring" where
  "limitedQuery query =
     (if includesStr (toLowerCase (cleanQuery query)) (js ''limit'') then cleanQuery query
      else cleanQuery query @ js '' LIMIT 1000'')"

text \<open>
  The \<open>try\<close> block of \<open>executeSqlTool\<close>: \<open>Inl\<close> is an exception on its way to the
  \<open>catch\<close> block. A failed engine call counts an error before it throws.
\<close>

definition executeSqlBody ::
  "'row engine \<Rightarrow> jsstring \<Rightarrow> jsstring \<Rightarrow> jsstring option \<Rightarrow> world
     \<Rightarrow> (thrown + 'row list) \<times> world" where
  "executeSqlBody eng query fileId reasoning w =
     (case emitReasoning reasoning w of
        (Inl e, w1) \<Rightarrow> (Inl e, w1)
      | (Inr _, w1) \<Rightarrow>
          let trimmedQuery = toLowerCase (trim query) in
          if \<not> startsWith trimmedQuery (js ''select'') then (Inl ValidationError, w1)
          else
            (case find (\<lambda>syntax. includesStr trimmedQuery syntax) sqliteIncompatible of
               Some foundIncompatible \<Rightarrow> (Inl (UnsupportedSyntax foundIncompatible), w1)
             | None \<Rightarrow>
                 let tableName = tableNameOf fileId;
                     queryLower = toLowerCase query
                 in
                 if \<not> includesStr queryLower (toLowerCase tableName) \<and>
                    \<not> includesStr queryLower (toLowerCase ([34] @ tableName @ [34])) \<and>
                    \<not> includesStr queryLower (toLowerCase ([39] @ tableName @ [39]))
                 then (Inl (ScopeViolation tableName), w1)
                 else
                   (case db_select eng (limitedQuery query) w1 of
                      (Inl msg, w2) \<Rightarrow> (Inl (EngineError msg), incrementErrorCount w2)
                    | (Inr result, w2) \<Rightarrow> (Inr result, w2))))"

definition executeSqlTool ::
  "'row engine \<Rightarrow> jsstring \<Rightarrow> jsstring \<Rightarrow> jsstring option \<Rightarrow> world
     \<Rightarrow> 'row QueryResult \<times> world" where
  "executeSqlTool eng query fileId reasoning w =
     (case executeSqlBody eng query fileId reasoning w of
        (Inr result, w') \<Rightarrow> (succeeded result, w')
      | (Inl e, w') \<Rightarrow> caught e w')"

text \<open>
  \<open>getTableSchemaTool\<close> asks the engine for \<open>PRAGMA table_info("data_<fileId>")\<close> and
  reshapes the rows it gets. Its result object has no \<open>rowCount\<close>.
\<close>

record TableInfoRow =
  col_name :: jsstring
  col_type :: jsstring
  notnull :: bool
  dflt_value :: "jsstring option"

record SchemaColumn =
  name :: jsstring
  type_name :: jsstring
  nullable :: bool
  defaultValue :: "jsstring option"

definition formatColumn :: "TableInfoRow \<Rightarrow> SchemaColumn" where
  "formatColumn col =
     \<lparr>name = col_name col, type_name = col_type col, nullable = (\<not> notnull col),
      defaultValue = dflt_value col\<rparr>"

definition tableInfoQuery :: "jsstring \<Rightarrow> jsstring" where
  "tableInfoQuery fileId = js ''PRAGMA table_info('' @ [34] @ tableNameOf fileId @ [34] @ js '')''"

definition getTableSchemaBody ::
  "TableInfoRow engine \<Rightarrow> jsstring \<Rightarrow> jsstring option \<Rightarrow> world
     \<Rightarrow> (thrown + SchemaColumn list) \<times> world" where
  "getTableSchemaBody eng fileId reasoning w =
     (case emitReasoning reasoning w of
        (Inl e, w1) \<Rightarrow> (Inl e, w1)
      | (Inr _, w1) \<Rightarrow>
          (case db_select eng (tableInfoQuery fileId) w1 of
             (Inl msg, w2) \<Rightarrow> (Inl (EngineError msg), incrementErrorCount w2)
           | (Inr schema, w2) \<Rightarrow> (Inr (map formatColumn schema), w2)))"

definition getTableSchemaTool ::
  "TableInfoRow engine \<Rightarrow> jsstring \<Rightarrow> jsstring option \<Rightarrow> world
     \<Rightarrow> SchemaColumn QueryResult \<times> world" where
  "getTableSchemaTool eng fileId reasoning w =
     (case getTableSchemaBody eng fileId reasoning w of
        (Inr formattedSchema, w') \<Rightarrow> ((succeeded formattedSchema)\<lparr>rowCount := None\<rparr>, w')
      | (Inl e, w') \<Rightarrow> caught e w')"

section \<open>Reference notions used to state the properties\<close>

text \<open>The state after \<open>resetState\<close>, with no callback registered and nothing logged.\<close>

definition resetState :: ReActState where
  "resetState =
     \<lparr>currentPlan = [], completedActions = [], observations = [], currentThought = [],
      needsReplan = False, errorCount = 0, apiCallCount = 0\<rparr>"

definition quietWorld :: world where
  "quietWorld = \<lparr>react = resetState, globalReasoningCallback = None, emitted = [], dbLog = []\<rparr>"

text \<open>The three guards of \<open>executeSqlTool\<close>, as the source tests them.\<close>

definition passesGuards :: "jsstring \<Rightarrow> jsstring \<Rightarrow> bool" where
  "passesGuards query fileId \<longleftrightarrow>
     startsWith (toLowerCase (trim query)) (js ''select'') \<and>
     find (\<lambda>syntax. includesStr (toLowerCase (trim query)) syntax) sqliteIncompatible = None \<and>
     (includesStr (toLowerCase query) (toLowerCase (tableNameOf fileId)) \<or>
      includesStr (toLowerCase query) (toLowerCase ([34] @ tableNameOf fileId @ [34])) \<or>
      includesStr (toLowerCase query) (toLowerCase ([39] @ tableNameOf fileId @ [39])))"

text \<open>
  The words of a statement: its maximal runs of letters, digits and underscores. They give
  the specification's wording a meaning that does not depend on the guards themselves: the
  first keyword of a query, whether the keyword LIMIT occurs in it, and the names that
  follow FROM or JOIN.
\<close>

function sqlWords :: "jsstring \<Rightarrow> jsstring list" where
  "sqlWords [] = []"
| "sqlWords (c # s) =
     (if isWordChar c then takeWhile isWordChar (c # s) # sqlWords (dropWhile isWordChar s)
      else sqlWords s)"
  by pat_completeness auto
termination
  by (relation "measure length") (auto simp: le_imp_less_Suc length_dropWhile_le)

fun tablesAfterFrom :: "jsstring list \<Rightarrow> jsstring list" where
  "tablesAfterFrom (k # t # ws) =
     (if k = js ''from'' \<or> k = js ''join'' then t # tablesAfterFrom (t # ws)
      else tablesAfterFrom (t # ws))"
| "tablesAfterFrom ws = []"

definition claimed_firstKeyword :: "jsstring \<Rightarrow> jsstring" where
  "claimed_firstKeyword query = takeWhile isWordChar (toLowerCase (trim query))"

definition claimed_tablesRead :: "jsstring \<Rightarrow> jsstring list" where
  "claimed_tablesRead query = tablesAfterFrom (sqlWords (toLowerCase query))"

definition claimed_rowCapPresent :: "jsstring \<Rightarrow> bool" where
  "claimed_rowCapPresent query \<longleftrightarrow> js ''limit'' \<in> set (sqlWords (toLowerCase query))"

text \<open>
  Two engines for the worked examples: one that holds a single table and honours a
  trailing \<open>LIMIT 1000\<close>, and one that rejects every statement.
\<close>

definition cappingEngine :: "'row list \<Rightarrow> 'row engine" where
  "cappingEngine table q =
     (if startsWith (rev q) (rev (js '' LIMIT 1000'')) then Inr (take 1000 table) else Inr table)"

definition rejectingEngine :: "nat engine" where
  "rejectingEngine q = Inl (js ''syntax error'')"

text \<open>
  A callback that always throws, as the streaming callback of the chat route does once the
  client has gone and the stream is closed.
\<close>

definition closedStream :: "jsstring \<Rightarrow> jsstring option" where
  "closedStream message = Some (js ''stream is closed'')"

section \<open>Column names (utils.ts)\<close>

text \<open>
  \<open>s.replace(/\s+/g, '_')\<close> and \<open>s.replace(/_+/g, '_')\<close>: every maximal run of the class
  becomes one underscore.
\<close>

function collapseRuns :: "(nat \<Rightarrow> bool) \<Rightarrow> jsstring \<Rightarrow> jsstring" where
  "collapseRuns P [] = []"
| "collapseRuns P (c # s) =
     (if P c then 95 # collapseRuns P (dropWhile P s) else c # collapseRuns P s)"
  by pat_completeness auto
termination
  by (relation "measure (\<lambda>(P, s). length s)") (auto simp: le_imp_less_Suc length_dropWhile_le)

text \<open>\<open>s.replace(/[^\w<Hangul>]/g, '_')\<close>\<close>

definition replaceSpecials :: "jsstring \<Rightarrow> jsstring" where
  "replaceSpecials s = map (\<lambda>c. if isWordChar c \<or> isHangul c then c else 95) s"

text \<open>\<open>s.replace(/^_+|_+$/g, '')\<close>: the run at the start and the run at the end go.\<close>

definition stripUnderscores :: "jsstring \<Rightarrow> jsstring" where
  "stripUnderscores s = rev (dropWhile (\<lambda>c. c = 95) (rev (dropWhile (\<lambda>c. c = 95) s)))"

definition cleanColumn :: "jsstring \<Rightarrow> jsstring" where
  "cleanColumn originalColumn =
     stripUnderscores (collapseRuns (\<lambda>c. c = 95) (replaceSpecials
       (collapseRuns isWhiteSpace (trim originalColumn))))"

definition reservedWords :: "jsstring list" where
  "reservedWords = map js
     [''select'', ''from'', ''where'', ''insert'', ''update'', ''delete'', ''create'', ''drop'',
      ''table'', ''index'', ''view'', ''database'', ''schema'', ''primary'', ''key'', ''foreign'',
      ''references'', ''constraint'', ''unique'', ''not'', ''null'', ''default'', ''check'',
      ''and'', ''or'', ''in'', ''like'', ''between'', ''exists'', ''case'', ''when'', ''then'',
      ''else'', ''end'', ''as'', ''order'', ''by'', ''group'', ''having'', ''limit'', ''offset'',
      ''union'', ''intersect'', ''except'', ''join'', ''inner'', ''left'', ''right'', ''full'',
      ''outer'', ''on'', ''using'', ''distinct'', ''all'', ''any'', ''some'']"

text \<open>
  The name of a column before duplicates are resolved: the cleaned name, replaced by
  \<open>column_<index + 1>\<close> when it is empty or starts with a digit, then suffixed with
  \<open>_col\<close> when its lower case is one of \<open>reservedWords\<close>.
\<close>

definition baseName :: "nat \<Rightarrow> jsstring \<Rightarrow> jsstring" where
  "baseName index originalColumn =
     (let cleaned = cleanColumn originalColumn;
          named = (if (case cleaned of [] \<Rightarrow> True | c # _ \<Rightarrow> isDigit c)
                   then js ''column_'' @ showNat (index + 1) else cleaned)
      in if toLowerCase named \<in> set reservedWords then named @ js ''_col'' else named)"

text \<open>
  The \<open>while\<close> loop that resolves duplicates, on its two variables. It ends because the
  candidates \<open>normalizedColumn_1, normalizedColumn_2, ...\<close> are pairwise different and
  only finitely many names are in use.
\<close>

function uniqueLoop :: "jsstring list \<Rightarrow> jsstring \<Rightarrow> jsstring \<Rightarrow> nat \<Rightarrow> jsstring" where
  "uniqueLoop usedNames normalizedColumn finalColumnName counter =
     (if toLowerCase finalColumnName \<in> set usedNames
      then uniqueLoop usedNames normalizedColumn
             (normalizedColumn @ [95] @ showNat counter) (counter + 1)
      else finalColumnName)"
  by pat_completeness auto
termination
proof (relation "measure (\<lambda>(used, base, final, counter).
          2 * card {k. counter \<le> k \<and> toLowerCase (base @ [95] @ showNat k) \<in> set used} +
          (if toLowerCase final \<in> set used then 1 else 0))")
  show "wf (measure (\<lambda>(used, base, final, counter).
          2 * card {k. counter \<le> k \<and> toLowerCase (base @ [95] @ showNat k) \<in> set used} +
          (if toLowerCase final \<in> set used then 1 else 0)))"
    by simp
next
  fix usedNames :: "jsstring list" and normalizedColumn finalColumnName :: jsstring and counter :: nat
  assume inUse: "toLowerCase finalColumnName \<in> set usedNames"
  let ?cand = "\<lambda>k. toLowerCase (normalizedColumn @ [95] @ showNat k)"
  have nonempty: "showNat n \<noteq> []" for n
    by (subst showNat.simps) simp
  have digits: "\<forall>c \<in> set (showNat n). 48 \<le> c \<and> c \<le> 57" for n
  proof (induction n rule: showNat.induct)
    case (1 n)
    show ?case
    proof (cases "n < 10")
      case True
      then show ?thesis by (subst showNat.simps) simp
    next
      case False
      have "n mod 10 < 10" by simp
      then have "48 + n mod 10 \<le> 57" by linarith
      with False 1 show ?thesis by (subst showNat.simps) auto
    qed
  qed
  have inj: "showNat m = showNat n \<Longrightarrow> m = n" for m n
  proof (induction m arbitrary: n rule: showNat.induct)
    case (1 m)
    show ?case
    proof (cases "m < 10")
      case mlt: True
      show ?thesis
      proof (cases "n < 10")
        case True
        with mlt "1.prems" show ?thesis
          by (simp add: showNat.simps[of m] showNat.simps[of n])
      next
        case False
        with mlt "1.prems" nonempty[of "n div 10"] show ?thesis
          by (simp add: showNat.simps[of m] showNat.simps[of n])
      qed
    next
      case mge: False
      show ?thesis
      proof (cases "n < 10")
        case True
        with mge "1.prems" nonempty[of "m div 10"] show ?thesis
          by (simp add: showNat.simps[of m] showNat.simps[of n])
      next
        case False
        with mge "1.prems" have "showNat (m div 10) = showNat (n div 10)" "m mod 10 = n mod 10"
          by (simp_all add: showNat.simps[of m] showNat.simps[of n])
        then have "m div 10 = n div 10" "m mod 10 = n mod 10"
          using "1.IH"[OF mge] by simp_all
        then show ?thesis by (metis div_mult_mod_eq)
      qed
    qed
  qed
  have notIgnorable: "\<not> isCaseIgnorable 95"
    by (simp add: isCaseIgnorable_def inRanges_def caseIgnorableRanges_def)
  have pointsAppend: "codePoints (xs @ 95 # ds) = codePoints xs @ 95 # codePoints ds" for xs ds
  proof (induction xs rule: codePoints.induct)
    case (1 h l s)
    then show ?case by simp
  qed ((cases ds; simp add: isHighSurrogate_def isLowSurrogate_def)+)
  have pointsOfDigits: "codePoints ds = ds" if "\<forall>c \<in> set ds. 48 \<le> c \<and> c \<le> 57" for ds
    using that by (induction ds rule: codePoints.induct) (auto simp: isHighSurrogate_def)
  have pointsDigits: "codePoints (showNat n) = showNat n" for n
    using digits by (rule pointsOfDigits)
  have casedAppend: "casedNext (r @ 95 # ys) = casedNext (r @ [95])" for r ys
    by (induction r) (simp_all add: notIgnorable)
  have lowerDigits: "lowerFrom b ds = ds" if "\<forall>c \<in> set ds. 48 \<le> c \<and> c \<le> 57" for b ds
    using that by (induction ds arbitrary: b) (auto simp: lowerOf_def)
  have lowerAppend: "lowerFrom b (p @ 95 # ds) = lowerFrom b (p @ [95]) @ ds"
    if d: "\<forall>c \<in> set ds. 48 \<le> c \<and> c \<le> 57" for b p ds
  proof (induction p arbitrary: b)
    case Nil
    show ?case by (simp add: lowerDigits[OF d])
  next
    case (Cons c p)
    have "casedNext (p @ 95 # ds) = casedNext (p @ [95])" by (rule casedAppend)
    with Cons show ?case by simp
  qed
  have unitsDigits: "concat (map codeUnits ds) = ds" if "\<forall>c \<in> set ds. 48 \<le> c \<and> c \<le> 57" for ds
    using that by (induction ds) (auto simp: codeUnits_def)
  have candSplit: "?cand k = toLowerCase (normalizedColumn @ [95]) @ showNat k" for k
  proof -
    have "codePoints (normalizedColumn @ 95 # showNat k) = codePoints normalizedColumn @ 95 # showNat k"
      by (simp add: pointsAppend pointsDigits)
    moreover have "codePoints (normalizedColumn @ [95]) = codePoints normalizedColumn @ [95]"
      using pointsAppend[of normalizedColumn "[]"] by simp
    ultimately show ?thesis
      by (simp add: toLowerCase_def lowerAppend[OF digits] unitsDigits[OF digits])
  qed
  have candInj: "inj ?cand"
  proof (rule injI)
    fix a b assume "?cand a = ?cand b"
    then have "toLowerCase (normalizedColumn @ [95]) @ showNat a
                 = toLowerCase (normalizedColumn @ [95]) @ showNat b"
      by (simp only: candSplit)
    then have "showNat a = showNat b" by simp
    then show "a = b" by (rule inj)
  qed
  have fin: "finite {k. ?cand k \<in> set usedNames}"
    using finite_vimageI[OF finite_set candInj, of usedNames] by (simp add: vimage_def)
  let ?A = "{k. counter \<le> k \<and> ?cand k \<in> set usedNames}"
  let ?B = "{k. counter + 1 \<le> k \<and> ?cand k \<in> set usedNames}"
  have finA: "finite ?A" using fin by (rule rev_finite_subset) auto
  have sub: "?B \<subseteq> ?A" by auto
  show "((usedNames, normalizedColumn, normalizedColumn @ [95] @ showNat counter, counter + 1),
         (usedNames, normalizedColumn, finalColumnName, counter))
        \<in> measure (\<lambda>(used, base, final, counter).
          2 * card {k. counter \<le> k \<and> toLowerCase (base @ [95] @ showNat k) \<in> set used} +
          (if toLowerCase final \<in> set used then 1 else 0))"
  proof (cases "?cand counter \<in> set usedNames")
    case True
    then have "counter \<in> ?A" "counter \<notin> ?B" by auto
    then have "?B \<subset> ?A" using sub by blast
    then have "card ?B < card ?A" using finA by (rule psubset_card_mono[rotated])
    then show ?thesis using inUse True by simp
  next
    case False
    have "card ?B \<le> card ?A" using sub finA by (rule card_mono[rotated])
    then show ?thesis using inUse False by simp
  qed
qed

declare uniqueLoop.simps [simp del]

record NormalizeState =
  normalizedColumns :: "jsstring list"
  columnMapping :: "jsstring \<rightharpoonup> jsstring"
  usedNames :: "jsstring list"

text \<open>
  One pass of \<open>forEach\<close>. \<open>columnMapping\<close> is a plain object and the map holds its own
  properties: the assignment \<open>columnMapping[originalColumn] = finalColumnName\<close> adds or
  replaces one, except under the key \<open>__proto__\<close>, where it reaches the inherited setter,
  which ignores a string and leaves the object as it was.
\<close>

fun normalizeEach :: "nat \<Rightarrow> jsstring list \<Rightarrow> NormalizeState \<Rightarrow> NormalizeState" where
  "normalizeEach index [] st = st"
| "normalizeEach index (originalColumn # columns) st =
     (let normalizedColumn = baseName index originalColumn;
          finalColumnName = uniqueLoop (usedNames st) normalizedColumn normalizedColumn 1
      in normalizeEach (index + 1) columns
           \<lparr>normalizedColumns = normalizedColumns st @ [finalColumnName],
            columnMapping =
              (if originalColumn = js ''__proto__'' then columnMapping st
               else (columnMapping st)(originalColumn \<mapsto> finalColumnName)),
            usedNames = usedNames st @ [toLowerCase finalColumnName]\<rparr>)"

definition normalizeColumnNames :: "jsstring list \<Rightarrow> jsstring list \<times> (jsstring \<rightharpoonup> jsstring)" where
  "normalizeColumnNames columns =
     (let st = normalizeEach 0 columns
                 \<lparr>normalizedColumns = [], columnMapping = Map.empty, usedNames = []\<rparr>
      in (normalizedColumns st, columnMapping st))"





section \<open>What the specification asks of column names\<close>

text \<open>
  The keywords that SQLite, the storage engine, refuses as the name of a column written
  without quotes: with each of them one of \<open>CREATE TABLE t(w INTEGER)\<close>,
  \<open>INSERT INTO t(w) VALUES (1)\<close> and \<open>SELECT w FROM t\<close> is an error (release 3.46).
  They are what a reserved storage keyword is, whatever a program lists.
\<close>

definition claimed_reservedKeywords :: "jsstring list" where
  "claimed_reservedKeywords = map js
     [''add'', ''all'', ''alter'', ''and'', ''as'', ''autoincrement'', ''between'', ''case'',
      ''cast'', ''check'', ''collate'', ''commit'', ''constraint'', ''create'', ''default'',
      ''deferrable'', ''delete'', ''distinct'', ''drop'', ''else'', ''escape'', ''except'',
      ''exists'', ''foreign'', ''from'', ''group'', ''having'', ''in'', ''index'', ''insert'',
      ''intersect'', ''into'', ''is'', ''isnull'', ''join'', ''limit'', ''not'', ''nothing'',
      ''notnull'', ''null'', ''on'', ''or'', ''order'', ''primary'', ''raise'',
      ''references'', ''returning'', ''select'', ''set'', ''table'', ''then'', ''to'',
      ''transaction'', ''union'', ''unique'', ''update'', ''using'', ''values'', ''when'',
      ''where'']"

text \<open>
  The fifty-six words that do get the suffix \<open>_col\<close>.
\<close>

definition suffixedKeywords :: "jsstring list" where
  "suffixedKeywords = map js
     [''select'', ''from'', ''where'', ''insert'', ''update'', ''delete'', ''create'', ''drop'',
      ''table'', ''index'', ''view'', ''database'', ''schema'', ''primary'', ''key'', ''foreign'',
      ''references'', ''constraint'', ''unique'', ''not'', ''null'', ''default'', ''check'',
      ''and'', ''or'', ''in'', ''like'', ''between'', ''exists'', ''case'', ''when'', ''then'',
      ''else'', ''end'', ''as'', ''order'', ''by'', ''group'', ''having'', ''limit'', ''offset'',
      ''union'', ''intersect'', ''except'', ''join'', ''inner'', ''left'', ''right'', ''full'',
      ''outer'', ''on'', ''using'', ''distinct'', ''all'', ''any'', ''some'']"

text \<open>
  A name is storage-safe when it does not start with a digit (so it is not empty),
  consists of letters, digits, underscores and Hangul syllables only, and is none of the
  fifty-six words in any letter case. It carries the smallest free suffix when it is the
  base name itself if that is not in use, and otherwise \<open>base_k\<close> for the least \<open>k\<close> from 1
  on whose candidate is not in use; names are compared in lower case, as the source does.
\<close>

definition storageSafe :: "jsstring \<Rightarrow> bool" where
  "storageSafe n \<longleftrightarrow>
     (case n of [] \<Rightarrow> False | c # _ \<Rightarrow> \<not> isDigit c) \<and>
     (\<forall>c \<in> set n. isWordChar c \<or> isHangul c) \<and>
     toLowerCase n \<notin> set suffixedKeywords"

definition withSuffix :: "jsstring \<Rightarrow> nat \<Rightarrow> jsstring" where
  "withSuffix base k = base @ [95] @ showNat k"

definition smallestFreeSuffix :: "jsstring list \<Rightarrow> jsstring \<Rightarrow> jsstring \<Rightarrow> bool" where
  "smallestFreeSuffix used base final \<longleftrightarrow>
     (if toLowerCase base \<notin> set used then final = base
      else \<exists>k. 1 \<le> k \<and> final = withSuffix base k \<and>
             toLowerCase (withSuffix base k) \<notin> set used \<and>
             (\<forall>j. 1 \<le> j \<and> j < k \<longrightarrow> toLowerCase (withSuffix base j) \<in> set used))"


section \<open>Type inference and bulk load (upload/route.ts)\<close>

text \<open>
  A cell of a parsed row: \<open>null\<close>, \<open>undefined\<close>, a string, or any other value (a number, a
  boolean or a date object of a spreadsheet), which the code only ever reads through
  \<open>String(value)\<close> and which is therefore given by that rendering.
\<close>

datatype cell = Null | Undefined | Str jsstring | NonString jsstring

text \<open>\<open>value === null || value === undefined || value === ''\<close>\<close>

definition isBlank :: "cell \<Rightarrow> bool" where
  "isBlank value =
     (case value of Null \<Rightarrow> True | Undefined \<Rightarrow> True | Str s \<Rightarrow> s = [] | NonString r \<Rightarrow> False)"

definition String_of :: "cell \<Rightarrow> jsstring" where
  "String_of value =
     (case value of
        Null \<Rightarrow> js ''null'' | Undefined \<Rightarrow> js ''undefined'' | Str s \<Rightarrow> s | NonString r \<Rightarrow> r)"

datatype coltype = INTEGER | REAL | DATE | TEXT

text \<open>
  The regular expressions of \<open>inferColumnType\<close> are sequences of character classes with a
  repetition range each, anchored at the start and possibly at the end. \<open>Rep P lo hi\<close> is a
  class repeated \<open>lo\<close> to \<open>hi\<close> times (\<open>None\<close>: without bound). \<open>matchItems\<close> tries every
  number of repetitions, as the backtracking matcher behind \<open>test\<close> does.
\<close>

datatype item = Rep "nat \<Rightarrow> bool" nat "nat option"

fun matchItems :: "item list \<Rightarrow> bool \<Rightarrow> jsstring \<Rightarrow> bool" where
  "matchItems [] anchored s = (\<not> anchored \<or> s = [])"
| "matchItems (Rep P lo hi # items) anchored s =
     ((lo = 0 \<and> matchItems items anchored s) \<or>
      (case s of
         [] \<Rightarrow> False
       | c # t \<Rightarrow>
           P c \<and> hi \<noteq> Some 0 \<and>
           matchItems (Rep P (lo - 1) (map_option (\<lambda>h. h - 1) hi) # items) anchored t))"

definition isSeparator :: "nat \<Rightarrow> bool" where
  "isSeparator c \<longleftrightarrow> c = 45 \<or> c = 47"

text \<open>\<open>/^-?\d+$/\<close> and \<open>/^-?\d*\.?\d+$/\<close>\<close>

definition integerPattern :: "jsstring \<Rightarrow> bool" where
  "integerPattern s = matchItems [Rep (\<lambda>c. c = 45) 0 (Some 1), Rep isDigit 1 None] True s"

definition realPattern :: "jsstring \<Rightarrow> bool" where
  "realPattern s =
     matchItems [Rep (\<lambda>c. c = 45) 0 (Some 1), Rep isDigit 0 None, Rep (\<lambda>c. c = 46) 0 (Some 1),
                 Rep isDigit 1 None] True s"

text \<open>
  \<open>/^\d{4}[-\/]\d{1,2}[-\/]\d{1,2}/\<close>, \<open>/^\d{1,2}[-\/]\d{1,2}[-\/]\d{4}/\<close> and
  \<open>/^\d{4}\d{2}\d{2}$/\<close>
\<close>

definition hasDatePattern :: "jsstring \<Rightarrow> bool" where
  "hasDatePattern s \<longleftrightarrow>
     matchItems [Rep isDigit 4 (Some 4), Rep isSeparator 1 (Some 1), Rep isDigit 1 (Some 2),
                 Rep isSeparator 1 (Some 1), Rep isDigit 1 (Some 2)] False s \<or>
     matchItems [Rep isDigit 1 (Some 2), Rep isSeparator 1 (Some 1), Rep isDigit 1 (Some 2),
                 Rep isSeparator 1 (Some 1), Rep isDigit 4 (Some 4)] False s \<or>
     matchItems [Rep isDigit 4 (Some 4), Rep isDigit 2 (Some 2), Rep isDigit 2 (Some 2)] True s"

text \<open>
  The parsers of the host are parameters. Each returns \<open>None\<close> where the host returns
  \<open>NaN\<close> or an invalid date; \<open>parseDate\<close> returns the ISO rendering of a valid date.
\<close>

record 'num runtime =
  parseInt10 :: "jsstring \<Rightarrow> 'num option"
  parseFloat :: "jsstring \<Rightarrow> 'num option"
  parseDate :: "jsstring \<Rightarrow> jsstring option"

record flags =
  isAllInteger :: bool
  isAllReal :: bool
  isAllDate :: bool

text \<open>One turn of the loop over the sample.\<close>

definition inferStep :: "'num runtime \<Rightarrow> flags \<Rightarrow> cell \<Rightarrow> flags" where
  "inferStep rt f value =
     (let strValue = trim (String_of value);
          f1 = (if isAllInteger f \<and> \<not> integerPattern strValue
                then f\<lparr>isAllInteger := False\<rparr> else f);
          f2 = (if isAllReal f1 \<and> \<not> realPattern strValue
                then f1\<lparr>isAllReal := False\<rparr> else f1)
      in if isAllDate f2
         then (let isValidDate = (parseDate rt strValue \<noteq> None)
               in if \<not> isValidDate \<or> \<not> hasDatePattern strValue
                  then f2\<lparr>isAllDate := False\<rparr> else f2)
         else f2)"

definition inferColumnType :: "'num runtime \<Rightarrow> cell list \<Rightarrow> coltype" where
  "inferColumnType rt values =
     (let nonNullValues = filter (\<lambda>v. \<not> isBlank v) values
      in if length nonNullValues = 0 then TEXT
         else
           let sampleValues = take 100 nonNullValues;
               f = foldl (inferStep rt)
                     \<lparr>isAllInteger = True, isAllReal = True, isAllDate = True\<rparr> sampleValues
           in if isAllInteger f then INTEGER
              else if isAllReal f then REAL
              else if isAllDate f then DATE
              else TEXT)"

text \<open>What is bound to a placeholder of the insert statement.\<close>

datatype 'num stored = SqlNull | SqlNumber 'num | SqlText jsstring

definition convertValue :: "'num runtime \<Rightarrow> coltype option \<Rightarrow> cell \<Rightarrow> 'num stored" where
  "convertValue rt columnType value =
     (if isBlank value then SqlNull
      else
        let strValue = trim (String_of value)
        in case columnType of
             Some INTEGER \<Rightarrow>
               (case parseInt10 rt strValue of None \<Rightarrow> SqlNull | Some intValue \<Rightarrow> SqlNumber intValue)
           | Some REAL \<Rightarrow>
               (case parseFloat rt strValue of
                  None \<Rightarrow> SqlNull | Some floatValue \<Rightarrow> SqlNumber floatValue)
           | Some DATE \<Rightarrow>
               (case parseDate rt strValue of None \<Rightarrow> SqlText strValue | Some isoString \<Rightarrow> SqlText isoString)
           | _ \<Rightarrow> SqlText strValue)"

text \<open>
  A row is an object keyed by normalized column name; a missing key reads as
  \<open>undefined\<close>. \<open>columnNames\<close> is the list of normalized column names.
\<close>

type_synonym row = "jsstring \<rightharpoonup> cell"

definition rowValues ::
  "'num runtime \<Rightarrow> jsstring list \<Rightarrow> (jsstring \<rightharpoonup> coltype) \<Rightarrow> row \<Rightarrow> 'num stored list" where
  "rowValues rt columnNames columnTypes r =
     map (\<lambda>col. convertValue rt (columnTypes col)
                  (case r col of None \<Rightarrow> Undefined | Some value \<Rightarrow> value))
         columnNames"

text \<open>
  The body of the load transaction. The engine's verdict on an insert is a parameter
  (\<open>Some\<close> of its message when it fails). \<open>Inl\<close> is the exception that leaves the
  transaction, which rolls back; \<open>Inr\<close> carries the rows inserted, in order.
\<close>

fun insertRows ::
  "('num stored list \<Rightarrow> jsstring option) \<Rightarrow> 'num runtime \<Rightarrow> jsstring list \<Rightarrow>
     (jsstring \<rightharpoonup> coltype) \<Rightarrow> 'num stored list list \<Rightarrow> row list \<Rightarrow> jsstring + 'num stored list list"
  where
  "insertRows insertFails rt columnNames columnTypes inserted [] = Inr inserted"
| "insertRows insertFails rt columnNames columnTypes inserted (r # normalizedData) =
     (let values = rowValues rt columnNames columnTypes r
      in case insertFails values of
           Some msg \<Rightarrow> Inl msg
         | None \<Rightarrow>
             insertRows insertFails rt columnNames columnTypes (inserted @ [values])
               normalizedData)"


text \<open>
  The classification as the specification words it, on the sample: the trimmed string
  forms of the first 100 values that are not blank.
\<close>

definition sampled :: "cell list \<Rightarrow> jsstring list" where
  "sampled values = map (\<lambda>v. trim (String_of v)) (take 100 (filter (\<lambda>v. \<not> isBlank v) values))"

definition claimed_columnType :: "'num runtime \<Rightarrow> jsstring list \<Rightarrow> coltype" where
  "claimed_columnType rt samples =
     (if samples = [] then TEXT
      else if list_all integerPattern samples then INTEGER
      else if list_all realPattern samples then REAL
      else if list_all (\<lambda>s. hasDatePattern s \<and> parseDate rt s \<noteq> None) samples then DATE
      else TEXT)"



text \<open>
  A small runtime for the worked examples. Its integer and decimal parsers return the
  numeral they read at the start of the string, after leading white space, or \<open>None\<close>
  when there is none; its date parser accepts the date-only form \<open>YYYY-MM-DD\<close>. It
  stands for the host's \<open>parseInt\<close>, \<open>parseFloat\<close> and \<open>Date\<close> on the inputs used below.
\<close>

definition leadingInteger :: "jsstring \<Rightarrow> jsstring option" where
  "leadingInteger s =
     (let r = dropWhile isWhiteSpace s;
          sign = takeWhile (\<lambda>c. c = 43 \<or> c = 45) (take 1 r);
          digits = takeWhile isDigit (drop (length sign) r)
      in if digits = [] then None else Some (sign @ digits))"

definition leadingDecimal :: "jsstring \<Rightarrow> jsstring option" where
  "leadingDecimal s =
     (let r = dropWhile isWhiteSpace s;
          sign = takeWhile (\<lambda>c. c = 43 \<or> c = 45) (take 1 r);
          whole = takeWhile isDigit (drop (length sign) r);
          fraction = (case dropWhile isDigit (drop (length sign) r) of
                        [] \<Rightarrow> []
                      | c # t \<Rightarrow> if c = 46 then takeWhile isDigit t else [])
      in if whole = [] \<and> fraction = [] then None
         else Some (sign @ whole @ (if fraction = [] then [] else 46 # fraction)))"

definition isoDateOnly :: "jsstring \<Rightarrow> jsstring option" where
  "isoDateOnly s =
     (if matchItems [Rep isDigit 4 (Some 4), Rep (\<lambda>c. c = 45) 1 (Some 1), Rep isDigit 2 (Some 2),
                     Rep (\<lambda>c. c = 45) 1 (Some 1), Rep isDigit 2 (Some 2)] True s
      then Some (s @ js ''T00:00:00.000Z'') else None)"

definition referenceRuntime :: "jsstring runtime" where
  "referenceRuntime =
     \<lparr>parseInt10 = leadingInteger, parseFloat = leadingDecimal, parseDate = isoDateOnly\<rparr>"



section \<open>The registry and the history store (database.ts, chat-history.ts, files/[id]/route.ts)\<close>

text \<open>
  A conversation turn. Its \<open>timestamp\<close> is a text of fixed format in the table, compared as
  text; the model takes the number of seconds it denotes, which orders the same way.
\<close>

record ChatHistoryItem =
  turn_id :: nat
  turn_fileId :: jsstring
  userMessage :: jsstring
  aiResponse :: jsstring
  timestamp :: nat

record FileRow =
  file_id :: jsstring
  file_name :: jsstring
  displayName :: "jsstring option"

text \<open>
  The statements the registry and the history store send to the engine, with their
  parameters. \<open>journal\<close> lists the statements attempted, in order.
\<close>

datatype statement =
    SelectFile jsstring
  | DeleteHistory jsstring
  | DropTable jsstring
  | DeleteFile jsstring
  | SelectHistoryAsc jsstring
  | SelectHistoryDesc jsstring int int
  | CountHistory jsstring

record database =
  files :: "FileRow list"
  tables :: "(jsstring \<times> TableInfoRow list) list"
  chat_history :: "ChatHistoryItem list"
  journal :: "statement list"

text \<open>
  The engine may fail on any statement; which ones fail is a parameter (\<open>Some\<close> of the
  engine's message). \<open>db.execute\<close>, \<open>db.select\<close> and \<open>db.selectOne\<close> turn the failure
  into a result object, here \<open>Inl\<close>.
\<close>

type_synonym faults = "statement \<Rightarrow> jsstring option"

definition turnsOf :: "database \<Rightarrow> jsstring \<Rightarrow> ChatHistoryItem list" where
  "turnsOf d ident = filter (\<lambda>t. turn_fileId t = ident) (chat_history d)"

text \<open>
  \<open>ORDER BY timestamp\<close>: SQL leaves the order of rows with equal timestamps open; the model
  keeps them in insertion order, in both directions. \<open>LIMIT l OFFSET o\<close> as the engine
  reads it: a negative offset is no offset, a negative limit is no limit.
\<close>

definition orderAsc :: "ChatHistoryItem list \<Rightarrow> ChatHistoryItem list" where
  "orderAsc ts = sort_key timestamp ts"

definition orderDesc :: "ChatHistoryItem list \<Rightarrow> ChatHistoryItem list" where
  "orderDesc ts = sort_key (\<lambda>t. - int (timestamp t)) ts"

definition limitOffset :: "int \<Rightarrow> int \<Rightarrow> 'a list \<Rightarrow> 'a list" where
  "limitOffset l o' xs =
     (let ys = drop (nat o') xs in if l < 0 then ys else take (nat l) ys)"

text \<open>
  What a statement changes when it succeeds. The \<open>chat_history\<close> table is created with
  \<open>FOREIGN KEY (fileId) REFERENCES files (id) ON DELETE CASCADE\<close> and the engine enforces
  foreign keys, so deleting a registry row deletes the turns that refer to it.
\<close>

fun effect :: "statement \<Rightarrow> database \<Rightarrow> database" where
  "effect (DeleteHistory ident) d =
     d\<lparr>chat_history := filter (\<lambda>t. turn_fileId t \<noteq> ident) (chat_history d)\<rparr>"
| "effect (DropTable tableName) d =
     d\<lparr>tables := filter (\<lambda>(n, cols). n \<noteq> tableName) (tables d)\<rparr>"
| "effect (DeleteFile ident) d =
     d\<lparr>files := filter (\<lambda>f. file_id f \<noteq> ident) (files d),
       chat_history := filter (\<lambda>t. turn_fileId t \<noteq> ident) (chat_history d)\<rparr>"
| "effect stmt d = d"

definition db_execute :: "faults \<Rightarrow> statement \<Rightarrow> database \<Rightarrow> (jsstring + unit) \<times> database" where
  "db_execute faults stmt d =
     (case faults stmt of
        Some msg \<Rightarrow> (Inl msg, d\<lparr>journal := journal d @ [stmt]\<rparr>)
      | None \<Rightarrow> (Inr (), (effect stmt d)\<lparr>journal := journal d @ [stmt]\<rparr>))"

definition db_selectOne_file ::
  "faults \<Rightarrow> jsstring \<Rightarrow> database \<Rightarrow> (jsstring + FileRow option) \<times> database" where
  "db_selectOne_file faults ident d =
     (case faults (SelectFile ident) of
        Some msg \<Rightarrow> (Inl msg, d\<lparr>journal := journal d @ [SelectFile ident]\<rparr>)
      | None \<Rightarrow> (Inr (find (\<lambda>f. file_id f = ident) (files d)),
                 d\<lparr>journal := journal d @ [SelectFile ident]\<rparr>))"

definition db_select_history ::
  "faults \<Rightarrow> statement \<Rightarrow> database \<Rightarrow> (jsstring + ChatHistoryItem list) \<times> database" where
  "db_select_history faults stmt d =
     (case faults stmt of
        Some msg \<Rightarrow> (Inl msg, d\<lparr>journal := journal d @ [stmt]\<rparr>)
      | None \<Rightarrow>
          (Inr (case stmt of
                  SelectHistoryAsc ident \<Rightarrow> orderAsc (turnsOf d ident)
                | SelectHistoryDesc ident l o' \<Rightarrow> limitOffset l o' (orderDesc (turnsOf d ident))
                | _ \<Rightarrow> []),
           d\<lparr>journal := journal d @ [stmt]\<rparr>))"

subsection \<open>chat-history.ts\<close>

text \<open>Each function throws the engine's message when the engine fails: \<open>Inl\<close>.\<close>

definition clearChatHistory :: "faults \<Rightarrow> jsstring \<Rightarrow> database \<Rightarrow> (jsstring + unit) \<times> database" where
  "clearChatHistory faults ident d = db_execute faults (DeleteHistory ident) d"

definition getAllChatHistory ::
  "faults \<Rightarrow> jsstring \<Rightarrow> database \<Rightarrow> (jsstring + ChatHistoryItem list) \<times> database" where
  "getAllChatHistory faults ident d = db_select_history faults (SelectHistoryAsc ident) d"

definition getChatHistoryCount :: "faults \<Rightarrow> jsstring \<Rightarrow> database \<Rightarrow> (jsstring + nat) \<times> database" where
  "getChatHistoryCount faults ident d =
     (case faults (CountHistory ident) of
        Some msg \<Rightarrow> (Inl msg, d\<lparr>journal := journal d @ [CountHistory ident]\<rparr>)
      | None \<Rightarrow> (Inr (length (turnsOf d ident)), d\<lparr>journal := journal d @ [CountHistory ident]\<rparr>))"

record PageResult =
  history :: "ChatHistoryItem list"
  totalCount :: nat
  hasMore :: bool
  currentPage :: int

definition getChatHistoryPaginated ::
  "faults \<Rightarrow> jsstring \<Rightarrow> int \<Rightarrow> int \<Rightarrow> database \<Rightarrow> (jsstring + PageResult) \<times> database" where
  "getChatHistoryPaginated faults ident page limit d =
     (let offset = (page - 1) * limit
      in case db_select_history faults (SelectHistoryDesc ident limit offset) d of
           (Inl msg, d1) \<Rightarrow> (Inl msg, d1)
         | (Inr rows, d1) \<Rightarrow>
             (case getChatHistoryCount faults ident d1 of
                (Inl msg, d2) \<Rightarrow> (Inl msg, d2)
              | (Inr total_count, d2) \<Rightarrow>
                  (Inr \<lparr>history = rev rows, totalCount = total_count,
                        hasMore = (offset + limit < int total_count), currentPage = page\<rparr>, d2)))"

subsection \<open>The DELETE handler of a dataset\<close>

datatype response = Deleted | NotFound404 | Failed500 jsstring

text \<open>
  The handler looks the dataset up, clears its history inside a \<open>try\<close> of its own (a
  failure is logged and the handler goes on), drops the table and deletes the registry row;
  a failure of either of the last two is thrown to the outer \<open>catch\<close>.
\<close>

definition DELETE :: "faults \<Rightarrow> jsstring \<Rightarrow> database \<Rightarrow> response \<times> database" where
  "DELETE faults ident d =
     (case db_selectOne_file faults ident d of
        (Inl msg, d1) \<Rightarrow> (NotFound404, d1)
      | (Inr None, d1) \<Rightarrow> (NotFound404, d1)
      | (Inr (Some fileData), d1) \<Rightarrow>
          let d2 = snd (clearChatHistory faults ident d1)
          in case db_execute faults (DropTable (tableNameOf ident)) d2 of
               (Inl msg, d3) \<Rightarrow> (Failed500 msg, d3)
             | (Inr _, d3) \<Rightarrow>
                 (case db_execute faults (DeleteFile ident) d3 of
                    (Inl msg, d4) \<Rightarrow> (Failed500 msg, d4)
                  | (Inr _, d4) \<Rightarrow> (Deleted, d4)))"


text \<open>
  For the worked examples: an engine that never fails, one whose \<open>DROP TABLE\<close> fails, one that fails
  to clear the history, the
  engine's answer to \<open>PRAGMA table_info\<close> on a database (the columns of the table, and no
  rows and no error for a table that does not exist, as SQLite answers), and a database
  with one dataset \<open>x\<close> that has three turns.
\<close>

definition noFaults :: faults where
  "noFaults stmt = None"

definition dropFails :: faults where
  "dropFails stmt = (case stmt of DropTable n \<Rightarrow> Some (js ''database is locked'') | _ \<Rightarrow> None)"

definition historyFails :: faults where
  "historyFails stmt =
     (case stmt of DeleteHistory n \<Rightarrow> Some (js ''database is locked'') | _ \<Rightarrow> None)"

definition tableInfoEngine :: "database \<Rightarrow> TableInfoRow engine" where
  "tableInfoEngine d q =
     (if startsWith q (js ''PRAGMA table_info('' @ [34]) \<and> startsWith (rev q) (rev ([34] @ js '')''))
      then (case find (\<lambda>(n, cols). q = js ''PRAGMA table_info('' @ [34] @ n @ [34] @ js '')'')
                   (tables d) of
              Some (n, cols) \<Rightarrow> Inr cols
            | None \<Rightarrow> Inr [])
      else Inl (js ''not a table_info statement''))"

definition exampleTurn :: "nat \<Rightarrow> nat \<Rightarrow> ChatHistoryItem" where
  "exampleTurn n t =
     \<lparr>turn_id = n, turn_fileId = js ''x'', userMessage = js ''q'', aiResponse = js ''a'',
      timestamp = t\<rparr>"

definition exampleDatabase :: database where
  "exampleDatabase =
     \<lparr>files = [\<lparr>file_id = js ''x'', file_name = js ''sales.csv'', displayName = None\<rparr>],
      tables = [(js ''data_x'',
                 [\<lparr>col_name = js ''amount'', col_type = js ''INTEGER'', notnull = False,
                   dflt_value = None\<rparr>])],
      chat_history = [exampleTurn 1 10, exampleTurn 2 20, exampleTurn 3 30],
      journal = []\<rparr>"


text \<open>
  The items of page \<open>p\<close> and the full history as a client receives them (nothing, when the
  call throws).
\<close>

definition pageItems :: "faults \<Rightarrow> jsstring \<Rightarrow> int \<Rightarrow> database \<Rightarrow> nat \<Rightarrow> ChatHistoryItem list" where
  "pageItems faults ident limit d p =
     (case fst (getChatHistoryPaginated faults ident (int p) limit d) of
        Inl msg \<Rightarrow> []
      | Inr r \<Rightarrow> history r)"

definition allItems :: "faults \<Rightarrow> jsstring \<Rightarrow> database \<Rightarrow> ChatHistoryItem list" where
  "allItems faults ident d =
     (case fst (getAllChatHistory faults ident d) of Inl msg \<Rightarrow> [] | Inr rows \<Rightarrow> rows)"

section \<open>Properties of the string operations\<close>

text \<open>
  On a string of code units below U+0080 \<open>toLowerCase\<close> is the familiar map: no surrogate
  pairs, no capital sigma, and only \<open>A\<close> to \<open>Z\<close> change.
\<close>

lemma codePoints_ascii: "\<forall>c \<in> set s. c < 128 \<Longrightarrow> codePoints s = s"
  by (induction s rule: codePoints.induct) (auto simp: isHighSurrogate_def)

lemma lowerFrom_ascii:
  "\<forall>c \<in> set s. c < 128 \<Longrightarrow>
     lowerFrom b s = map (\<lambda>c. if 65 \<le> c \<and> c \<le> 90 then c + 32 else c) s"
  by (induction s arbitrary: b) (auto simp: lowerOf_def)

lemma codeUnits_ascii: "\<forall>c \<in> set s. c < 65536 \<Longrightarrow> concat (map codeUnits s) = s"
  by (induction s) (auto simp: codeUnits_def)

lemma toLowerCase_ascii:
  assumes "\<forall>c \<in> set s. c < 128"
  shows "toLowerCase s = map (\<lambda>c. if 65 \<le> c \<and> c \<le> 90 then c + 32 else c) s"
proof -
  let ?low = "map (\<lambda>c. if 65 \<le> c \<and> c \<le> 90 then c + 32 else c) s"
  have "\<forall>c \<in> set ?low. c < 65536" using assms by auto
  then have "concat (map codeUnits ?low) = ?low" by (rule codeUnits_ascii)
  then show ?thesis
    by (simp only: toLowerCase_def codePoints_ascii[OF assms] lowerFrom_ascii[OF assms])
qed

text \<open>
  Beyond U+007F: the Kelvin sign becomes \<open>k\<close>, the dotted capital I becomes \<open>i\<close> and a
  combining dot, a capital sigma at the end of a word becomes the final sigma, a Deseret
  capital (a surrogate pair) becomes its small letter, and a lone surrogate stays.
\<close>

lemma toLowerCase_examples:
  "toLowerCase [8490] = [107] \<and>
   toLowerCase [304] = [105, 775] \<and>
   toLowerCase [913, 931] = [945, 962] \<and>
   toLowerCase [931, 913] = [963, 945] \<and>
   toLowerCase [55297, 56320] = [55297, 56360] \<and>
   toLowerCase [56320, 65] = [56320, 97]"
  by (simp add: toLowerCase_def isHighSurrogate_def isLowSurrogate_def codeUnits_def lowerOf_def
      lowerSimple_def lowerRanges_def isCaseIgnorable_def isCased_def inRanges_def
      caseIgnorableRanges_def casedRanges_def)

lemmas str_eval = js_def toLowerCase_ascii trim_def isWhiteSpace_def startsWith_def isDigit_def
  isWordChar_def isHangul_def

lemma startsWith_iff: "startsWith s p \<longleftrightarrow> (\<exists>b. s = p @ b)"
  unfolding startsWith_def
  by (metis append_eq_conv_conj append_take_drop_id)

lemma includesStr_iff: "includesStr s p \<longleftrightarrow> (\<exists>a b. s = a @ p @ b)"
proof (induction s)
  case Nil
  then show ?case by auto
next
  case (Cons c s)
  show ?case
  proof
    assume "includesStr (c # s) p"
    then consider "startsWith (c # s) p" | "includesStr s p" by auto
    then show "\<exists>a b. c # s = a @ p @ b"
    proof cases
      case 1
      then obtain b where "c # s = p @ b" by (auto simp: startsWith_iff)
      then have "c # s = [] @ p @ b" by simp
      then show ?thesis by blast
    next
      case 2
      then obtain a b where "s = a @ p @ b" using Cons.IH by blast
      then have "c # s = (c # a) @ p @ b" by simp
      then show ?thesis by blast
    qed
  next
    assume "\<exists>a b. c # s = a @ p @ b"
    then obtain a b where ab: "c # s = a @ p @ b" by blast
    show "includesStr (c # s) p"
    proof (cases a)
      case Nil
      with ab have "c # s = p @ b" by simp
      then have "startsWith (c # s) p" unfolding startsWith_iff by blast
      then show ?thesis by simp
    next
      case (Cons x a')
      with ab have "s = a' @ p @ b" by simp
      then have "includesStr s p" using Cons.IH by blast
      then show ?thesis by simp
    qed
  qed
qed

lemma includesStr_inner: "includesStr s (x @ p @ y) \<Longrightarrow> includesStr s p"
  unfolding includesStr_iff
  by (metis append.assoc)

lemma stripTrailingSemicolons_last:
  "stripTrailingSemicolons s = [] \<or> last (stripTrailingSemicolons s) \<noteq> 59"
proof -
  have "dropWhile (\<lambda>c. c = 59) (rev s) = [] \<or> hd (dropWhile (\<lambda>c. c = 59) (rev s)) \<noteq> 59"
    using hd_dropWhile[of "\<lambda>c. c = 59" "rev s"] by blast
  then show ?thesis
    by (auto simp: stripTrailingSemicolons_def last_rev)
qed

lemma stripTrailingSemicolons_run:
  "\<exists>n. s = stripTrailingSemicolons s @ replicate n 59"
proof -
  let ?semis = "takeWhile (\<lambda>c. c = 59) (rev s)"
  have "rev s = ?semis @ dropWhile (\<lambda>c. c = 59) (rev s)" by simp
  moreover have "?semis = replicate (length ?semis) 59"
    by (metis (mono_tags, lifting) replicate_length_same set_takeWhileD)
  ultimately have "rev s = replicate (length ?semis) 59 @ dropWhile (\<lambda>c. c = 59) (rev s)"
    by simp
  then have "s = rev (dropWhile (\<lambda>c. c = 59) (rev s)) @ replicate (length ?semis) 59"
    by (metis rev_append rev_replicate rev_rev_ident)
  then show ?thesis unfolding stripTrailingSemicolons_def by blast
qed

section \<open>The query tool: what is rejected, what reaches the engine\<close>

lemmas tool_eval = executeSqlTool_def executeSqlBody_def emitReasoning_def quietWorld_def Let_def
  sqliteIncompatible_def tableNameOf_def db_select_def limitedQuery_def cleanQuery_def
  stripTrailingSemicolons_def caught_def succeeded_def incrementErrorCount_def shouldReplan_def
  resetState_def

lemma caught_facts:
  "\<not> success (fst (caught e w))" "error (fst (caught e w)) = Some e"
  "dbLog (snd (caught e w)) = dbLog w"
  by (simp_all add: caught_def Let_def incrementErrorCount_def)

lemma emitReasoning_dbLog: "dbLog (snd (emitReasoning r w)) = dbLog w"
  by (auto simp: emitReasoning_def callReasoningCallback_def Let_def split: option.splits)

lemma executeSql_accepted:
  assumes "fst (emitReasoning reasoning w) = Inr ()" and "passesGuards query fileId"
  shows "executeSqlBody eng query fileId reasoning w =
           (case db_select eng (limitedQuery query) (snd (emitReasoning reasoning w)) of
              (Inl msg, w2) \<Rightarrow> (Inl (EngineError msg), incrementErrorCount w2)
            | (Inr result, w2) \<Rightarrow> (Inr result, w2))"
proof -
  obtain w1 where em: "emitReasoning reasoning w = (Inr (), w1)"
    using assms(1) by (cases "emitReasoning reasoning w") auto
  show ?thesis using assms(2)
    by (auto simp: executeSqlBody_def em Let_def passesGuards_def)
qed

lemma executeSql_dbLog_accepted:
  assumes "fst (emitReasoning reasoning w) = Inr ()" and "passesGuards query fileId"
  shows "dbLog (snd (executeSqlTool eng query fileId reasoning w)) = dbLog w @ [limitedQuery query]"
  using emitReasoning_dbLog[of reasoning w]
  by (auto simp: executeSqlTool_def executeSql_accepted[OF assms] db_select_def caught_facts
      incrementErrorCount_def split: sum.splits prod.splits)

lemma executeSql_data_accepted:
  assumes "fst (emitReasoning reasoning w) = Inr ()" and "passesGuards query fileId"
  shows "data (fst (executeSqlTool eng query fileId reasoning w)) =
           (case eng (limitedQuery query) of Inl msg \<Rightarrow> None | Inr rows \<Rightarrow> Some rows)"
  by (auto simp: executeSqlTool_def executeSql_accepted[OF assms] db_select_def caught_def Let_def
      succeeded_def split: sum.splits prod.splits)

lemma executeSql_not_accepted:
  assumes "\<not> passesGuards query fileId"
  shows "\<not> success (fst (executeSqlTool eng query fileId reasoning w)) \<and>
         dbLog (snd (executeSqlTool eng query fileId reasoning w)) = dbLog w"
proof -
  obtain r w1 where em: "emitReasoning reasoning w = (r, w1)"
    by (cases "emitReasoning reasoning w")
  have w1: "dbLog w1 = dbLog w" using emitReasoning_dbLog[of reasoning w] em by simp
  have "\<exists>e. executeSqlBody eng query fileId reasoning w = (Inl e, w1)"
    using assms
    by (cases r) (auto simp: executeSqlBody_def em Let_def passesGuards_def split: option.splits)
  then obtain e where "executeSqlTool eng query fileId reasoning w = caught e w1"
    by (auto simp: executeSqlTool_def)
  then show ?thesis using w1 by (simp add: caught_facts)
qed

lemma executeSql_thrown_callback:
  assumes "fst (emitReasoning reasoning w) = Inl e"
  shows "executeSqlTool eng query fileId reasoning w = caught e (snd (emitReasoning reasoning w))"
  using assms
  by (cases "emitReasoning reasoning w") (auto simp: executeSqlTool_def executeSqlBody_def)


text \<open>
  C1 (as amended). A query whose trimmed, lower-cased text does not start with the six
  letters \<open>select\<close> is never handed to the storage engine: the tool returns a failure
  result, and that failure is the SELECT-only error unless the reasoning callback threw
  first.
\<close>

theorem executeSql_rejects_non_select:
  assumes "\<not> startsWith (toLowerCase (trim query)) (js ''select'')"
  shows "\<not> success (fst (executeSqlTool eng query fileId reasoning w)) \<and>
         dbLog (snd (executeSqlTool eng query fileId reasoning w)) = dbLog w \<and>
         (fst (emitReasoning reasoning w) = Inr () \<longrightarrow>
            error (fst (executeSqlTool eng query fileId reasoning w)) = Some ValidationError)"
proof -
  obtain r w1 where em: "emitReasoning reasoning w = (r, w1)"
    by (cases "emitReasoning reasoning w")
  have w1: "dbLog w1 = dbLog w" using emitReasoning_dbLog[of reasoning w] em by simp
  show ?thesis
  proof (cases r)
    case (Inl e)
    then have "executeSqlTool eng query fileId reasoning w = caught e w1"
      by (simp add: executeSqlTool_def executeSqlBody_def em)
    then show ?thesis using w1 em Inl by (simp add: caught_facts)
  next
    case (Inr u)
    then have "executeSqlTool eng query fileId reasoning w = caught ValidationError w1"
      using assms by (simp add: executeSqlTool_def executeSqlBody_def em Let_def)
    then show ?thesis using w1 by (simp add: caught_facts)
  qed
qed

text \<open>The rejected statement of the specification's example, \<open>DELETE FROM data_x\<close>.\<close>

theorem executeSql_rejects_non_select_witness:
  "\<not> startsWith (toLowerCase (trim (js ''DELETE FROM data_x''))) (js ''select'') \<and>
   \<not> success (fst (executeSqlTool rejectingEngine (js ''DELETE FROM data_x'') (js ''x'') None quietWorld)) \<and>
   dbLog (snd (executeSqlTool rejectingEngine (js ''DELETE FROM data_x'') (js ''x'') None quietWorld)) = [] \<and>
   error (fst (executeSqlTool rejectingEngine (js ''DELETE FROM data_x'') (js ''x'') None quietWorld))
     = Some ValidationError"
proof -
  have h: "\<not> startsWith (toLowerCase (trim (js ''DELETE FROM data_x''))) (js ''select'')"
    by (simp add: str_eval)
  have e: "fst (emitReasoning None quietWorld) = Inr ()"
    by (simp add: emitReasoning_def)
  have q: "dbLog quietWorld = []" by (simp add: quietWorld_def)
  show ?thesis
    using h e q executeSql_rejects_non_select [OF h, of rejectingEngine "js ''x''" None quietWorld]
    by simp
qed

text \<open>
  The guard compares a prefix, not a keyword: \<open>SELECTED * FROM data_x\<close> has the first
  keyword \<open>selected\<close>, passes all three guards and is handed to the engine.
\<close>

theorem executeSql_first_keyword_counterexample:
  "claimed_firstKeyword (js ''SELECTED * FROM data_x'') \<noteq> js ''select'' \<and>
   dbLog (snd (executeSqlTool rejectingEngine (js ''SELECTED * FROM data_x'') (js ''x'') None
                 quietWorld))
     = [js ''SELECTED * FROM data_x LIMIT 1000''] \<and>
   error (fst (executeSqlTool rejectingEngine (js ''SELECTED * FROM data_x'') (js ''x'') None
                 quietWorld))
     = Some (EngineError (js ''syntax error''))"
  by (simp add: claimed_firstKeyword_def tool_eval rejectingEngine_def str_eval
      cong: let_weak_cong)

text \<open>
  C2. The scope guard is the tool's only means of keeping a query on the dataset's own
  table, and the error it raises says that only the table of the current file may be
  accessed. The guard tests whether the table name occurs in the text of the query, not
  which tables the query reads. For the dataset \<open>x\<close> the query \<open>SELECT * FROM data_xy\<close>
  passes, since \<open>data_x\<close> is the beginning of the other table's name, and so does
  \<open>SELECT * FROM files -- data_x\<close>, which names the table in a comment only. Both are
  handed to the engine and succeed, and neither reads \<open>data_x\<close>.
\<close>

theorem executeSql_scope_escape:
  "tableNameOf (js ''x'') = js ''data_x'' \<and>
   success (fst (executeSqlTool (cappingEngine [0::nat]) (js ''SELECT * FROM data_xy'') (js ''x'')
                   None quietWorld)) \<and>
   dbLog (snd (executeSqlTool (cappingEngine [0::nat]) (js ''SELECT * FROM data_xy'') (js ''x'')
                 None quietWorld))
     = [js ''SELECT * FROM data_xy LIMIT 1000''] \<and>
   claimed_tablesRead (js ''SELECT * FROM data_xy LIMIT 1000'') = [js ''data_xy''] \<and>
   success (fst (executeSqlTool (cappingEngine [0::nat]) (js ''SELECT * FROM files -- data_x'')
                   (js ''x'') None quietWorld)) \<and>
   dbLog (snd (executeSqlTool (cappingEngine [0::nat]) (js ''SELECT * FROM files -- data_x'')
                 (js ''x'') None quietWorld))
     = [js ''SELECT * FROM files -- data_x LIMIT 1000''] \<and>
   claimed_tablesRead (js ''SELECT * FROM files -- data_x LIMIT 1000'') = [js ''files'']"
  by (simp add: claimed_tablesRead_def tool_eval cappingEngine_def str_eval
      cong: let_weak_cong)

text \<open>
  The guard does refuse a query in which the table name does not occur at all, once the
  two guards before it have let the query through.
\<close>

lemma executeSql_scope_refusal:
  "error (fst (executeSqlTool rejectingEngine (js ''SELECT * FROM data_other'') (js ''x'') None
                 quietWorld))
     = Some (ScopeViolation (js ''data_x'')) \<and>
   dbLog (snd (executeSqlTool rejectingEngine (js ''SELECT * FROM data_other'') (js ''x'') None
                 quietWorld)) = []"
  by (simp add: tool_eval rejectingEngine_def str_eval
      cong: let_weak_cong)


text \<open>
  What the tool does to an accepted query: it reaches the engine as \<open>limitedQuery query\<close>,
  the trimmed query without the run of semicolons at its end, followed by \<open>LIMIT 1000\<close>
  exactly when its lower-cased text does not contain the letters \<open>limit\<close> anywhere.
\<close>

lemma executeSql_limitedQuery:
  "(fst (emitReasoning reasoning w) = Inr () \<and> passesGuards query fileId \<longrightarrow>
      dbLog (snd (executeSqlTool eng query fileId reasoning w)) = dbLog w @ [limitedQuery query]) \<and>
   (\<exists>n. trim query = cleanQuery query @ replicate n 59) \<and>
   (cleanQuery query = [] \<or> last (cleanQuery query) \<noteq> 59) \<and>
   (\<not> includesStr (toLowerCase (cleanQuery query)) (js ''limit'') \<longrightarrow>
      limitedQuery query = cleanQuery query @ js '' LIMIT 1000'') \<and>
   (includesStr (toLowerCase (cleanQuery query)) (js ''limit'') \<longrightarrow>
      limitedQuery query = cleanQuery query)"
proof (intro conjI impI)
  assume "fst (emitReasoning reasoning w) = Inr () \<and> passesGuards query fileId"
  then show "dbLog (snd (executeSqlTool eng query fileId reasoning w)) = dbLog w @ [limitedQuery query]"
    using executeSql_dbLog_accepted by blast
next
  show "\<exists>n. trim query = cleanQuery query @ replicate n 59"
    unfolding cleanQuery_def by (rule stripTrailingSemicolons_run)
next
  show "cleanQuery query = [] \<or> last (cleanQuery query) \<noteq> 59"
    unfolding cleanQuery_def by (rule stripTrailingSemicolons_last)
next
  assume "\<not> includesStr (toLowerCase (cleanQuery query)) (js ''limit'')"
  then show "limitedQuery query = cleanQuery query @ js '' LIMIT 1000''"
    by (simp add: limitedQuery_def)
next
  assume "includesStr (toLowerCase (cleanQuery query)) (js ''limit'')"
  then show "limitedQuery query = cleanQuery query"
    by (simp add: limitedQuery_def)
qed

text \<open>
  C6. The tool appends \<open>LIMIT 1000\<close> so that no query returns more than a thousand rows,
  and leaves a query alone that brings its own cap. Whether a cap is present it decides by
  searching the text for the letters \<open>limit\<close>. A column called \<open>credit_limit\<close> satisfies
  that search: the accepted query \<open>SELECT credit_limit FROM data_x\<close> has no LIMIT keyword,
  nothing is appended, and from a table of 5000 rows all 5000 come back. The same table
  queried with \<open>SELECT * FROM data_x\<close> gives 1000 rows.
\<close>

theorem executeSql_row_cap_missed:
  "\<not> claimed_rowCapPresent (js ''SELECT credit_limit FROM data_x'') \<and>
   passesGuards (js ''SELECT credit_limit FROM data_x'') (js ''x'') \<and>
   dbLog (snd (executeSqlTool (cappingEngine (replicate 5000 (0::nat)))
                 (js ''SELECT credit_limit FROM data_x'') (js ''x'') None quietWorld))
     = [js ''SELECT credit_limit FROM data_x''] \<and>
   map_option length
     (data (fst (executeSqlTool (cappingEngine (replicate 5000 (0::nat)))
                   (js ''SELECT credit_limit FROM data_x'') (js ''x'') None quietWorld)))
     = Some 5000 \<and>
   dbLog (snd (executeSqlTool (cappingEngine (replicate 5000 (0::nat)))
                 (js ''SELECT * FROM data_x'') (js ''x'') None quietWorld))
     = [js ''SELECT * FROM data_x LIMIT 1000''] \<and>
   map_option length
     (data (fst (executeSqlTool (cappingEngine (replicate 5000 (0::nat)))
                   (js ''SELECT * FROM data_x'') (js ''x'') None quietWorld)))
     = Some 1000"
  by (simp add: claimed_rowCapPresent_def passesGuards_def tool_eval cappingEngine_def str_eval
      cong: let_weak_cong)

section \<open>The reasoning stream emitter\<close>

text \<open>
  C10 (as amended). \<open>callReasoningCallback\<close> has no handler of its own. It raises to its
  caller exactly when a callback is registered, the reasoning string is not empty and the
  callback throws on the scrubbed message; the scrub itself is a total string function.
  The exception stops at the tool that made the call: \<open>executeSqlTool\<close> reports it as a
  structured failure, with the error counted and nothing handed to the engine.
\<close>

theorem callReasoningCallback_propagates:
  "(fst (callReasoningCallback reasoning prefix w) = Inl e \<longleftrightarrow>
      (\<exists>callback msg. globalReasoningCallback w = Some callback \<and> reasoning \<noteq> [] \<and>
         callback (finalMessage prefix reasoning) = Some msg \<and> e = CallbackError msg)) \<and>
   (fst (emitReasoning r w) = Inl e \<longrightarrow>
      \<not> success (fst (executeSqlTool eng query fileId r w)) \<and>
      error (fst (executeSqlTool eng query fileId r w)) = Some e \<and>
      dbLog (snd (executeSqlTool eng query fileId r w)) = dbLog w)"
proof (intro conjI impI)
  show "fst (callReasoningCallback reasoning prefix w) = Inl e \<longleftrightarrow>
      (\<exists>callback msg. globalReasoningCallback w = Some callback \<and> reasoning \<noteq> [] \<and>
         callback (finalMessage prefix reasoning) = Some msg \<and> e = CallbackError msg)"
    by (auto simp: callReasoningCallback_def split: option.splits)
next
  assume a: "fst (emitReasoning r w) = Inl e"
  then have t: "executeSqlTool eng query fileId r w = caught e (snd (emitReasoning r w))"
    by (rule executeSql_thrown_callback)
  show "\<not> success (fst (executeSqlTool eng query fileId r w))"
    "error (fst (executeSqlTool eng query fileId r w)) = Some e"
    "dbLog (snd (executeSqlTool eng query fileId r w)) = dbLog w"
    using emitReasoning_dbLog[of r w] by (simp_all add: t caught_facts)
qed

text \<open>A callback on a closed stream: the exception leaves the emitter, the tool reports it.\<close>

theorem callReasoningCallback_propagates_witness:
  "fst (callReasoningCallback (js ''step'') None (quietWorld\<lparr>globalReasoningCallback := Some closedStream\<rparr>))
     = Inl (CallbackError (js ''stream is closed'')) \<and>
   error (fst (executeSqlTool rejectingEngine (js ''SELECT * FROM data_x'') (js ''x'') (Some (js ''step''))
                 (quietWorld\<lparr>globalReasoningCallback := Some closedStream\<rparr>)))
     = Some (CallbackError (js ''stream is closed'')) \<and>
   dbLog (snd (executeSqlTool rejectingEngine (js ''SELECT * FROM data_x'') (js ''x'') (Some (js ''step''))
                 (quietWorld\<lparr>globalReasoningCallback := Some closedStream\<rparr>))) = []"
proof -
  let ?w = "quietWorld\<lparr>globalReasoningCallback := Some closedStream\<rparr>"
  have c: "globalReasoningCallback ?w = Some closedStream" by simp
  have n: "js ''step'' \<noteq> []" by (simp add: js_def)
  have m: "closedStream (finalMessage None (js ''step'')) = Some (js ''stream is closed'')"
    by (simp add: closedStream_def)
  have ex: "\<exists>callback msg. globalReasoningCallback ?w = Some callback \<and> js ''step'' \<noteq> [] \<and>
         callback (finalMessage None (js ''step'')) = Some msg \<and>
         CallbackError (js ''stream is closed'') = CallbackError msg"
    using c n m by blast
  have q: "dbLog ?w = []" by (simp add: quietWorld_def)
  have em: "emitReasoning (Some (js ''step'')) ?w = callReasoningCallback (js ''step'') None ?w"
    using n by (simp add: emitReasoning_def)
  show ?thesis
    using ex q em
      callReasoningCallback_propagates [of "js ''step''" None ?w "CallbackError (js ''stream is closed'')"
        "Some (js ''step'')" rejectingEngine "js ''SELECT * FROM data_x''" "js ''x''"]
    by simp
qed

text \<open>The emitter raises to its caller.\<close>

theorem callReasoningCallback_counterexample:
  "fst (callReasoningCallback (js ''step'') None
          (quietWorld\<lparr>globalReasoningCallback := Some closedStream\<rparr>))
     = Inl (CallbackError (js ''stream is closed''))"
  by (simp add: callReasoningCallback_def closedStream_def js_def)

text \<open>The scrub on a mixed message: storage words become the generic ones.\<close>

lemma convertToUserFriendlyMessage_example: "convertToUserFriendlyMessage (js ''SQL  row'' @ ko_table @ [32] @ ko_lookup) = ko_data @ [32, 32] @ ko_item @ ko_data @ [32] @ ko_analysis"
  by (simp add: convertToUserFriendlyMessage_def ko_table_def ko_lookup_def ko_column_def ko_schema_def ko_run_def ko_query_def ko_data_def ko_analysis_def ko_field_def ko_structure_def ko_database_def ko_information_def ko_row_def ko_item_def str_eval)


section \<open>Column names: safe and unique\<close>

lemmas col_eval = normalizeColumnNames_def baseName_def cleanColumn_def stripUnderscores_def
  replaceSpecials_def reservedWords_def uniqueLoop.simps showNat.simps Let_def


lemma showNat_nonempty: "showNat n \<noteq> []"
  by (subst showNat.simps) simp

lemma showNat_digits: "c \<in> set (showNat n) \<Longrightarrow> isDigit c"
proof (induction n arbitrary: c rule: showNat.induct)
  case (1 n)
  show ?case
  proof (cases "n < 10")
    case True
    with "1.prems" show ?thesis by (simp add: showNat.simps[of n] isDigit_def)
  next
    case False
    have "n mod 10 < 10" by simp
    then have "48 + n mod 10 \<le> 57" by linarith
    with False 1 show ?thesis by (auto simp: showNat.simps[of n] isDigit_def)
  qed
qed

lemma isDigit_isWordChar: "isDigit c \<Longrightarrow> isWordChar c"
  by (simp add: isWordChar_def)

lemma set_collapseRuns: "set (collapseRuns P s) \<subseteq> insert 95 (set s)"
proof (induction P s rule: collapseRuns.induct)
  case (1 P)
  then show ?case by simp
next
  case (2 P c s)
  show ?case
  proof (cases "P c")
    case True
    then have "set (collapseRuns P (dropWhile P s)) \<subseteq> insert 95 (set (dropWhile P s))"
      using 2 by simp
    also have "\<dots> \<subseteq> insert 95 (set s)" using set_dropWhileD by fastforce
    finally show ?thesis using True by auto
  next
    case False
    then show ?thesis using 2 by auto
  qed
qed

lemma set_stripUnderscores: "set (stripUnderscores s) \<subseteq> set s"
proof -
  have "set (dropWhile (\<lambda>c. c = 95) (rev (dropWhile (\<lambda>c. c = 95) s))) \<subseteq> set (rev (dropWhile (\<lambda>c. c = 95) s))"
    using set_dropWhileD by fastforce
  also have "\<dots> \<subseteq> set s" using set_dropWhileD by fastforce
  finally show ?thesis by (simp add: stripUnderscores_def)
qed

lemma underscore_word: "isWordChar 95"
  by (simp add: isWordChar_def)

lemma cleanColumn_chars:
  assumes "c \<in> set (cleanColumn x)" shows "isWordChar c \<or> isHangul c"
proof -
  let ?r = "replaceSpecials (collapseRuns isWhiteSpace (trim x))"
  have r: "\<forall>c \<in> set ?r. isWordChar c \<or> isHangul c"
    by (auto simp: replaceSpecials_def underscore_word)
  have "c \<in> set (collapseRuns (\<lambda>c. c = 95) ?r)"
    using assms set_stripUnderscores unfolding cleanColumn_def by blast
  then have "c = 95 \<or> c \<in> set ?r" using set_collapseRuns by blast
  then show ?thesis using r underscore_word by blast
qed

lemma reservedWords_listed: "reservedWords = suffixedKeywords"
  by (simp add: reservedWords_def suffixedKeywords_def)

lemma reserved_no_underscore: "w \<in> set suffixedKeywords \<Longrightarrow> 95 \<notin> set w"
  by (auto simp: suffixedKeywords_def js_def)

lemma underscore_codePoints: "95 \<in> set s \<Longrightarrow> 95 \<in> set (codePoints s)"
  by (induction s rule: codePoints.induct) (auto simp: isHighSurrogate_def isLowSurrogate_def)

lemma underscore_lowerFrom: "95 \<in> set r \<Longrightarrow> 95 \<in> set (lowerFrom b r)"
  by (induction r arbitrary: b) (auto simp: lowerOf_def)

lemma underscore_codeUnits: "95 \<in> set r \<Longrightarrow> 95 \<in> set (concat (map codeUnits r))"
  by (induction r) (auto simp: codeUnits_def)

lemma underscore_toLowerCase: "95 \<in> set s \<Longrightarrow> 95 \<in> set (toLowerCase s)"
  unfolding toLowerCase_def
  by (intro underscore_codeUnits underscore_lowerFrom underscore_codePoints)

lemma not_reserved_if_underscore: "95 \<in> set s \<Longrightarrow> toLowerCase s \<notin> set suffixedKeywords"
  using reserved_no_underscore underscore_toLowerCase by blast

lemma column_prefix_safe: "storageSafe (js ''column_'' @ showNat n)"
proof -
  have "\<forall>c \<in> set (js ''column_''). isWordChar c" by (simp add: str_eval)
  moreover have "\<forall>c \<in> set (showNat n). isWordChar c"
    using showNat_digits isDigit_isWordChar by blast
  moreover have "95 \<in> set (js ''column_'' @ showNat n)" by (simp add: js_def)
  ultimately show ?thesis
    using not_reserved_if_underscore[of "js ''column_'' @ showNat n"]
    by (auto simp: storageSafe_def js_def isDigit_def)
qed

lemma baseName_cases:
  "baseName index x =
     (let cleaned = cleanColumn x in
      if cleaned = [] \<or> isDigit (hd cleaned) then js ''column_'' @ showNat (index + 1)
      else if toLowerCase cleaned \<in> set suffixedKeywords then cleaned @ js ''_col''
      else cleaned)"
proof (cases "cleanColumn x")
  case Nil
  then show ?thesis
    using column_prefix_safe[of "index + 1"]
    by (simp add: baseName_def Let_def storageSafe_def reservedWords_listed)
next
  case (Cons c s)
  then show ?thesis
    using column_prefix_safe[of "index + 1"]
    by (simp add: baseName_def Let_def storageSafe_def reservedWords_listed)
qed

lemma baseName_safe: "storageSafe (baseName index x)"
proof -
  let ?cl = "cleanColumn x"
  consider (sub) "?cl = [] \<or> isDigit (hd ?cl)"
    | (res) "?cl \<noteq> []" "\<not> isDigit (hd ?cl)" "toLowerCase ?cl \<in> set suffixedKeywords"
    | (plain) "?cl \<noteq> []" "\<not> isDigit (hd ?cl)" "toLowerCase ?cl \<notin> set suffixedKeywords"
    by blast
  then show ?thesis
  proof cases
    case sub
    then show ?thesis using column_prefix_safe by (simp add: baseName_cases Let_def)
  next
    case res
    have "\<forall>c \<in> set (js ''_col''). isWordChar c" by (simp add: str_eval)
    moreover have "95 \<in> set (?cl @ js ''_col'')" by (simp add: js_def)
    ultimately have "storageSafe (?cl @ js ''_col'')"
      using res cleanColumn_chars[of _ x] not_reserved_if_underscore[of "?cl @ js ''_col''"]
      by (cases ?cl) (auto simp: storageSafe_def)
    then show ?thesis using res by (simp add: baseName_cases Let_def)
  next
    case plain
    then have "storageSafe ?cl"
      using cleanColumn_chars[of _ x] by (cases ?cl) (auto simp: storageSafe_def)
    then show ?thesis using plain by (simp add: baseName_cases Let_def)
  qed
qed

lemma withSuffix_safe: "storageSafe base \<Longrightarrow> storageSafe (withSuffix base k)"
proof -
  assume b: "storageSafe base"
  have "\<forall>c \<in> set (showNat k). isWordChar c"
    using showNat_digits isDigit_isWordChar by blast
  moreover have "95 \<in> set (withSuffix base k)" by (simp add: withSuffix_def)
  ultimately show ?thesis
    using b not_reserved_if_underscore[of "withSuffix base k"] underscore_word
    by (cases base) (auto simp: storageSafe_def withSuffix_def)
qed

lemma uniqueLoop_spec:
  "toLowerCase final \<in> set used \<Longrightarrow>
     \<exists>k. counter \<le> k \<and> uniqueLoop used base final counter = withSuffix base k \<and>
         toLowerCase (withSuffix base k) \<notin> set used \<and>
         (\<forall>j. counter \<le> j \<and> j < k \<longrightarrow> toLowerCase (withSuffix base j) \<in> set used)"
proof (induction used base final counter rule: uniqueLoop.induct)
  case (1 used base final counter)
  have step: "uniqueLoop used base final counter
                = uniqueLoop used base (withSuffix base counter) (counter + 1)"
    using "1.prems" by (simp add: uniqueLoop.simps[of used base final counter] withSuffix_def)
  show ?case
  proof (cases "toLowerCase (withSuffix base counter) \<in> set used")
    case False
    then have "uniqueLoop used base (withSuffix base counter) (counter + 1) = withSuffix base counter"
      by (simp add: uniqueLoop.simps[of used base "withSuffix base counter"])
    with step False show ?thesis by (intro exI[of _ counter]) auto
  next
    case True
    then obtain k where k: "counter + 1 \<le> k"
        "uniqueLoop used base (withSuffix base counter) (counter + 1) = withSuffix base k"
        "toLowerCase (withSuffix base k) \<notin> set used"
        "\<forall>j. counter + 1 \<le> j \<and> j < k \<longrightarrow> toLowerCase (withSuffix base j) \<in> set used"
      using "1.IH"[OF "1.prems"] unfolding withSuffix_def by blast
    have "\<forall>j. counter \<le> j \<and> j < k \<longrightarrow> toLowerCase (withSuffix base j) \<in> set used"
    proof (intro allI impI)
      fix j assume "counter \<le> j \<and> j < k"
      then consider "j = counter" | "counter + 1 \<le> j \<and> j < k" by linarith
      then show "toLowerCase (withSuffix base j) \<in> set used"
        using True k(4) by cases auto
    qed
    with k step show ?thesis by (intro exI[of _ k]) auto
  qed
qed

lemma uniqueLoop_smallest:
  "smallestFreeSuffix used base (uniqueLoop used base base 1)"
proof (cases "toLowerCase base \<in> set used")
  case True
  then show ?thesis
    using uniqueLoop_spec[of base used 1 base] by (auto simp: smallestFreeSuffix_def)
next
  case False
  then show ?thesis by (simp add: smallestFreeSuffix_def uniqueLoop.simps[of used base base])
qed

lemma smallestFreeSuffix_fresh:
  "smallestFreeSuffix used base final \<Longrightarrow> toLowerCase final \<notin> set used"
  by (auto simp: smallestFreeSuffix_def split: if_splits)

lemma smallestFreeSuffix_safe:
  "smallestFreeSuffix used base final \<Longrightarrow> storageSafe base \<Longrightarrow> storageSafe final"
  by (auto simp: smallestFreeSuffix_def withSuffix_safe split: if_splits)


lemma distinct_if_fresh:
  "(\<forall>i < length xs. xs ! i \<notin> set (take i xs)) \<Longrightarrow> distinct xs"
proof (induction xs rule: rev_induct)
  case Nil
  then show ?case by simp
next
  case (snoc x xs)
  have "\<forall>i < length xs. xs ! i \<notin> set (take i xs)"
  proof (intro allI impI)
    fix i assume i: "i < length xs"
    then have "(xs @ [x]) ! i \<notin> set (take i (xs @ [x]))" using snoc.prems by simp
    then show "xs ! i \<notin> set (take i xs)" using i by (simp add: nth_append)
  qed
  then have d: "distinct xs" by (rule snoc.IH)
  have "length xs < length (xs @ [x])" by simp
  then have "(xs @ [x]) ! length xs \<notin> set (take (length xs) (xs @ [x]))"
    using snoc.prems by blast
  then have "x \<notin> set xs" by simp
  with d show ?case by simp
qed

lemma normalizeEach_inv:
  assumes "usedNames st = map toLowerCase (normalizedColumns st)"
  shows "length (normalizedColumns (normalizeEach i cols st))
           = length (normalizedColumns st) + length cols \<and>
         take (length (normalizedColumns st)) (normalizedColumns (normalizeEach i cols st))
           = normalizedColumns st \<and>
         (\<forall>j < length cols.
            smallestFreeSuffix
              (map toLowerCase
                 (take (length (normalizedColumns st) + j)
                    (normalizedColumns (normalizeEach i cols st))))
              (baseName (i + j) (cols ! j))
              (normalizedColumns (normalizeEach i cols st) ! (length (normalizedColumns st) + j)))"
  using assms
proof (induction cols arbitrary: i st)
  case Nil
  then show ?case by simp
next
  case (Cons c cs)
  let ?n0 = "length (normalizedColumns st)"
  let ?b = "baseName i c"
  let ?f = "uniqueLoop (usedNames st) ?b ?b 1"
  let ?st1 = "\<lparr>normalizedColumns = normalizedColumns st @ [?f],
               columnMapping = (if c = js ''__proto__'' then columnMapping st
                                else (columnMapping st)(c \<mapsto> ?f)),
               usedNames = usedNames st @ [toLowerCase ?f]\<rparr>"
  let ?names = "normalizedColumns (normalizeEach (i + 1) cs ?st1)"
  have unfold: "normalizeEach i (c # cs) st = normalizeEach (i + 1) cs ?st1"
    by (simp add: Let_def)
  have inv1: "usedNames ?st1 = map toLowerCase (normalizedColumns ?st1)"
    using Cons.prems by simp
  have n1: "length (normalizedColumns ?st1) = ?n0 + 1" by simp
  note IH = Cons.IH[OF inv1, of "i + 1"]
  have len: "length ?names = ?n0 + 1 + length cs" using IH n1 by simp
  have tk1: "take (?n0 + 1) ?names = normalizedColumns st @ [?f]" using IH n1 by simp
  have tk0: "take ?n0 ?names = normalizedColumns st"
  proof -
    have "take ?n0 ?names = take ?n0 (take (?n0 + 1) ?names)" by (simp add: min_def)
    also have "\<dots> = take ?n0 (normalizedColumns st @ [?f])" by (simp only: tk1)
    also have "\<dots> = normalizedColumns st" by simp
    finally show ?thesis .
  qed
  have at0: "?names ! ?n0 = ?f"
  proof -
    have "?names ! ?n0 = take (?n0 + 1) ?names ! ?n0" by simp
    also have "\<dots> = (normalizedColumns st @ [?f]) ! ?n0" by (simp only: tk1)
    also have "\<dots> = ?f" by simp
    finally show ?thesis .
  qed
  have rest: "\<forall>j < length cs.
      smallestFreeSuffix (map toLowerCase (take (?n0 + 1 + j) ?names))
        (baseName (i + 1 + j) (cs ! j)) (?names ! (?n0 + 1 + j))"
    using IH n1 by simp
  have all: "\<forall>j < length (c # cs).
      smallestFreeSuffix (map toLowerCase (take (?n0 + j) ?names))
        (baseName (i + j) ((c # cs) ! j)) (?names ! (?n0 + j))"
  proof (intro allI impI)
    fix j assume j: "j < length (c # cs)"
    show "smallestFreeSuffix (map toLowerCase (take (?n0 + j) ?names))
        (baseName (i + j) ((c # cs) ! j)) (?names ! (?n0 + j))"
    proof (cases j)
      case 0
      have "smallestFreeSuffix (usedNames st) ?b ?f" by (rule uniqueLoop_smallest)
      then show ?thesis using 0 tk0 at0 Cons.prems by simp
    next
      case (Suc j')
      then have "j' < length cs" using j by simp
      then show ?thesis using rest Suc by simp
    qed
  qed
  show ?case using len tk0 all unfold by simp
qed

lemma normalizeColumnNames_resolved:
  "length (fst (normalizeColumnNames columns)) = length columns \<and>
   (\<forall>i < length columns.
      smallestFreeSuffix (map toLowerCase (take i (fst (normalizeColumnNames columns))))
        (baseName i (columns ! i)) (fst (normalizeColumnNames columns) ! i))"
  using normalizeEach_inv[of "\<lparr>normalizedColumns = [], columnMapping = Map.empty, usedNames = []\<rparr>"
      0 columns]
  by (simp add: normalizeColumnNames_def Let_def)

text \<open>
  C5 (as amended). For every list of column names, \<open>normalizeColumnNames\<close> returns as many
  names as it was given; each is non-empty, does not start with a digit, consists of
  letters, digits, underscores and Hangul syllables, and is none of the fifty-six words
  \<open>suffixedKeywords\<close> in any letter case; and they are pairwise distinct, even when compared
  in lower case. The name at position \<open>i\<close> comes from its base name: the cleaned column
  name, replaced by \<open>column_<i + 1>\<close> when it is empty or starts with a digit, suffixed with
  \<open>_col\<close> when its lower case is one of the fifty-six words; the base name is kept when no
  earlier name equals it, and otherwise gets the smallest integer suffix from 1 on that is
  not in use. The columns \<open>Order Date\<close>, \<open>Amount ($)\<close>, \<open>Amount ($)\<close> become \<open>Order_Date\<close>,
  \<open>Amount\<close>, \<open>Amount_1\<close>.
\<close>

theorem normalizeColumnNames_safe_unique:
  "length (fst (normalizeColumnNames columns)) = length columns \<and>
   (\<forall>n \<in> set (fst (normalizeColumnNames columns)). n \<noteq> [] \<and> storageSafe n) \<and>
   distinct (fst (normalizeColumnNames columns)) \<and>
   distinct (map toLowerCase (fst (normalizeColumnNames columns))) \<and>
   (\<forall>i < length columns.
      baseName i (columns ! i) =
        (let cleaned = cleanColumn (columns ! i) in
         if cleaned = [] \<or> isDigit (hd cleaned) then js ''column_'' @ showNat (i + 1)
         else if toLowerCase cleaned \<in> set suffixedKeywords then cleaned @ js ''_col''
         else cleaned) \<and>
      smallestFreeSuffix (map toLowerCase (take i (fst (normalizeColumnNames columns))))
        (baseName i (columns ! i)) (fst (normalizeColumnNames columns) ! i)) \<and>
   fst (normalizeColumnNames [js ''Order Date'', js ''Amount ($)'', js ''Amount ($)''])
     = [js ''Order_Date'', js ''Amount'', js ''Amount_1'']"
proof -
  let ?names = "fst (normalizeColumnNames columns)"
  have len: "length ?names = length columns"
    and res: "\<forall>i < length columns.
      smallestFreeSuffix (map toLowerCase (take i ?names)) (baseName i (columns ! i)) (?names ! i)"
    using normalizeColumnNames_resolved[of columns] by blast+
  have safe: "\<forall>n \<in> set ?names. n \<noteq> [] \<and> storageSafe n"
  proof
    fix n assume "n \<in> set ?names"
    then obtain i where i: "i < length columns" "?names ! i = n"
      using len by (metis in_set_conv_nth)
    then have "storageSafe n"
      using res smallestFreeSuffix_safe baseName_safe by blast
    then show "n \<noteq> [] \<and> storageSafe n" by (auto simp: storageSafe_def)
  qed
  have dl: "distinct (map toLowerCase ?names)"
  proof (rule distinct_if_fresh, intro allI impI)
    fix i assume "i < length (map toLowerCase ?names)"
    then have i: "i < length columns" using len by simp
    then have "toLowerCase (?names ! i) \<notin> set (map toLowerCase (take i ?names))"
      using res smallestFreeSuffix_fresh by blast
    then show "map toLowerCase ?names ! i \<notin> set (take i (map toLowerCase ?names))"
      using i len by (simp add: take_map)
  qed
  then have d: "distinct ?names" by (simp add: distinct_map)
  have ex: "fst (normalizeColumnNames [js ''Order Date'', js ''Amount ($)'', js ''Amount ($)''])
     = [js ''Order_Date'', js ''Amount'', js ''Amount_1'']"
    by (simp add: col_eval str_eval
      cong: let_weak_cong)
  show ?thesis using len safe d dl res ex baseName_cases by simp
qed

text \<open>
  The three columns of the example and a column called \<open>Select\<close>, read off the general
  statement.
\<close>

theorem normalizeColumnNames_safe_unique_witness:
  "length (fst (normalizeColumnNames [js ''Order Date'', js ''Amount ($)'', js ''Amount ($)''])) = 3 \<and>
   storageSafe (js ''Amount_1'') \<and>
   distinct [js ''Order_Date'', js ''Amount'', js ''Amount_1''] \<and>
   smallestFreeSuffix [js ''order_date'', js ''amount''] (js ''Amount'') (js ''Amount_1'') \<and>
   fst (normalizeColumnNames [js ''Select'']) = [js ''Select_col'']"
proof -
  let ?cols = "[js ''Order Date'', js ''Amount ($)'', js ''Amount ($)'']"
  let ?names = "fst (normalizeColumnNames ?cols)"
  note t = normalizeColumnNames_safe_unique [of ?cols]
  have ex: "?names = [js ''Order_Date'', js ''Amount'', js ''Amount_1'']"
    using t by (elim conjE)
  have len: "length ?names = 3" using t by simp
  have "\<forall>n \<in> set ?names. n \<noteq> [] \<and> storageSafe n" using t by (elim conjE)
  then have safe: "storageSafe (js ''Amount_1'')" by (simp only: ex) simp
  have "distinct ?names" using t by (elim conjE)
  then have d: "distinct [js ''Order_Date'', js ''Amount'', js ''Amount_1'']" by (simp only: ex)
  have l: "map toLowerCase [js ''Order_Date'', js ''Amount''] = [js ''order_date'', js ''amount'']"
    by (simp add: str_eval)
  have all: "\<forall>i < length ?cols.
      baseName i (?cols ! i) =
        (let cleaned = cleanColumn (?cols ! i) in
         if cleaned = [] \<or> isDigit (hd cleaned) then js ''column_'' @ showNat (i + 1)
         else if toLowerCase cleaned \<in> set suffixedKeywords then cleaned @ js ''_col''
         else cleaned) \<and>
      smallestFreeSuffix (map toLowerCase (take i ?names)) (baseName i (?cols ! i)) (?names ! i)"
    using t by (elim conjE)
  have "2 < length ?cols" by simp
  with all have two:
     "baseName 2 (?cols ! 2) =
        (let cleaned = cleanColumn (?cols ! 2) in
         if cleaned = [] \<or> isDigit (hd cleaned) then js ''column_'' @ showNat (2 + 1)
         else if toLowerCase cleaned \<in> set suffixedKeywords then cleaned @ js ''_col''
         else cleaned) \<and>
      smallestFreeSuffix (map toLowerCase (take 2 ?names)) (baseName 2 (?cols ! 2)) (?names ! 2)"
    by blast
  have n2: "?cols ! 2 = js ''Amount ($)''" by simp
  have rhs: "(let cleaned = cleanColumn (js ''Amount ($)'') in
         if cleaned = [] \<or> isDigit (hd cleaned) then js ''column_'' @ showNat (2 + 1)
         else if toLowerCase cleaned \<in> set suffixedKeywords then cleaned @ js ''_col''
         else cleaned) = js ''Amount''"
    by (simp add: cleanColumn_def stripUnderscores_def replaceSpecials_def suffixedKeywords_def
        str_eval)
  from two have "baseName 2 (?cols ! 2) =
        (let cleaned = cleanColumn (?cols ! 2) in
         if cleaned = [] \<or> isDigit (hd cleaned) then js ''column_'' @ showNat (2 + 1)
         else if toLowerCase cleaned \<in> set suffixedKeywords then cleaned @ js ''_col''
         else cleaned)"
    by (rule conjunct1)
  then have b: "baseName 2 (js ''Amount ($)'') = js ''Amount''"
    by (simp only: n2 rhs)
  from two have "smallestFreeSuffix (map toLowerCase (take 2 ?names)) (baseName 2 (?cols ! 2)) (?names ! 2)"
    by (rule conjunct2)
  then have "smallestFreeSuffix (map toLowerCase [js ''Order_Date'', js ''Amount'']) (baseName 2 (js ''Amount ($)'')) (js ''Amount_1'')"
    by (simp only: ex) simp
  then have r: "smallestFreeSuffix [js ''order_date'', js ''amount''] (js ''Amount'') (js ''Amount_1'')"
    by (simp only: b l)
  let ?one = "[js ''Select'']"
  note u = normalizeColumnNames_safe_unique [of ?one]
  have ulen: "length (fst (normalizeColumnNames ?one)) = 1" using u by simp
  have uall: "\<forall>i < length ?one.
      baseName i (?one ! i) =
        (let cleaned = cleanColumn (?one ! i) in
         if cleaned = [] \<or> isDigit (hd cleaned) then js ''column_'' @ showNat (i + 1)
         else if toLowerCase cleaned \<in> set suffixedKeywords then cleaned @ js ''_col''
         else cleaned) \<and>
      smallestFreeSuffix (map toLowerCase (take i (fst (normalizeColumnNames ?one))))
        (baseName i (?one ! i)) (fst (normalizeColumnNames ?one) ! i)"
    using u by (elim conjE)
  have "0 < length ?one" by simp
  with uall have zero:
     "baseName 0 (?one ! 0) =
        (let cleaned = cleanColumn (?one ! 0) in
         if cleaned = [] \<or> isDigit (hd cleaned) then js ''column_'' @ showNat (0 + 1)
         else if toLowerCase cleaned \<in> set suffixedKeywords then cleaned @ js ''_col''
         else cleaned) \<and>
      smallestFreeSuffix (map toLowerCase (take 0 (fst (normalizeColumnNames ?one))))
        (baseName 0 (?one ! 0)) (fst (normalizeColumnNames ?one) ! 0)"
    by blast
  have n0: "?one ! 0 = js ''Select''" by simp
  have urhs: "(let cleaned = cleanColumn (js ''Select'') in
         if cleaned = [] \<or> isDigit (hd cleaned) then js ''column_'' @ showNat (0 + 1)
         else if toLowerCase cleaned \<in> set suffixedKeywords then cleaned @ js ''_col''
         else cleaned) = js ''Select_col''"
    by (simp add: cleanColumn_def stripUnderscores_def replaceSpecials_def suffixedKeywords_def
        str_eval)
  from zero have "baseName 0 (?one ! 0) =
        (let cleaned = cleanColumn (?one ! 0) in
         if cleaned = [] \<or> isDigit (hd cleaned) then js ''column_'' @ showNat (0 + 1)
         else if toLowerCase cleaned \<in> set suffixedKeywords then cleaned @ js ''_col''
         else cleaned)"
    by (rule conjunct1)
  then have ub: "baseName 0 (js ''Select'') = js ''Select_col''"
    by (simp only: n0 urhs)
  from zero have "smallestFreeSuffix (map toLowerCase (take 0 (fst (normalizeColumnNames ?one))))
        (baseName 0 (?one ! 0)) (fst (normalizeColumnNames ?one) ! 0)"
    by (rule conjunct2)
  then have "fst (normalizeColumnNames ?one) ! 0 = js ''Select_col''"
    by (simp add: ub smallestFreeSuffix_def)
  with ulen have s: "fst (normalizeColumnNames ?one) = [js ''Select_col'']"
    by (cases "fst (normalizeColumnNames ?one)") simp_all
  show ?thesis using len safe d r s by blast
qed

text \<open>
  The statement as specified fails on a keyword that the function does not list.
  \<open>values\<close>, \<open>set\<close>, \<open>is\<close> and \<open>into\<close> are reserved by the storage engine, which refuses
  each of them as an unquoted column name, and all four are returned without a suffix.
\<close>

theorem normalizeColumnNames_keyword_counterexample:
  "set [js ''values'', js ''set'', js ''is'', js ''into''] \<subseteq> set claimed_reservedKeywords \<and>
   fst (normalizeColumnNames [js ''values'', js ''set'', js ''is'', js ''into''])
     = [js ''values'', js ''set'', js ''is'', js ''into'']"
  by (simp add: claimed_reservedKeywords_def col_eval str_eval
      cong: let_weak_cong)

text \<open>Reserved words, digit-leading and blank names, and collisions that differ in case only.\<close>

lemma normalizeColumnNames_mixed_example: "fst (normalizeColumnNames [js ''select'', js ''2024 sales'', js '' '', js ''SELECT'', js ''a'', js ''A'', js ''a_1''])
   = [js ''select_col'', js ''column_2'', js ''column_3'', js ''SELECT_col_1'', js ''a'', js ''A_1'', js ''a_1_1'']"
  by (simp add: col_eval str_eval
      cong: let_weak_cong)


section \<open>Type inference\<close>

lemmas infer_eval = inferColumnType_def inferStep_def isBlank_def String_of_def integerPattern_def
  realPattern_def hasDatePattern_def isSeparator_def Let_def

lemma inferStep_flags:
  "inferStep rt f value =
     \<lparr>isAllInteger = (isAllInteger f \<and> integerPattern (trim (String_of value))),
      isAllReal = (isAllReal f \<and> realPattern (trim (String_of value))),
      isAllDate = (isAllDate f \<and> hasDatePattern (trim (String_of value)) \<and>
                   parseDate rt (trim (String_of value)) \<noteq> None)\<rparr>"
  by (cases f) (auto simp: inferStep_def Let_def)

lemma foldl_inferStep:
  "foldl (inferStep rt) f vs =
     \<lparr>isAllInteger = (isAllInteger f \<and> list_all integerPattern (map (\<lambda>v. trim (String_of v)) vs)),
      isAllReal = (isAllReal f \<and> list_all realPattern (map (\<lambda>v. trim (String_of v)) vs)),
      isAllDate = (isAllDate f \<and>
                   list_all (\<lambda>s. hasDatePattern s \<and> parseDate rt s \<noteq> None)
                     (map (\<lambda>v. trim (String_of v)) vs))\<rparr>"
proof (induction vs arbitrary: f)
  case Nil
  then show ?case by simp
next
  case (Cons v vs)
  have "foldl (inferStep rt) f (v # vs) = foldl (inferStep rt) (inferStep rt f v) vs"
    by simp
  also have "\<dots> =
     \<lparr>isAllInteger = (isAllInteger (inferStep rt f v) \<and>
                       list_all integerPattern (map (\<lambda>v. trim (String_of v)) vs)),
      isAllReal = (isAllReal (inferStep rt f v) \<and>
                    list_all realPattern (map (\<lambda>v. trim (String_of v)) vs)),
      isAllDate = (isAllDate (inferStep rt f v) \<and>
                   list_all (\<lambda>s. hasDatePattern s \<and> parseDate rt s \<noteq> None)
                     (map (\<lambda>v. trim (String_of v)) vs))\<rparr>"
    by (rule Cons.IH)
  also have "\<dots> =
     \<lparr>isAllInteger = (isAllInteger f \<and>
                       list_all integerPattern (map (\<lambda>v. trim (String_of v)) (v # vs))),
      isAllReal = (isAllReal f \<and> list_all realPattern (map (\<lambda>v. trim (String_of v)) (v # vs))),
      isAllDate = (isAllDate f \<and>
                   list_all (\<lambda>s. hasDatePattern s \<and> parseDate rt s \<noteq> None)
                     (map (\<lambda>v. trim (String_of v)) (v # vs)))\<rparr>"
    by (simp add: inferStep_flags conj_assoc)
  finally show ?case .
qed

lemma inferColumnType_claimed:
  "inferColumnType rt values = claimed_columnType rt (sampled values)"
proof (cases "filter (\<lambda>v. \<not> isBlank v) values = []")
  case True
  then show ?thesis
    by (simp add: inferColumnType_def claimed_columnType_def sampled_def)
next
  case False
  then have "sampled values \<noteq> []" by (simp add: sampled_def)
  then show ?thesis
    using False
    by (simp add: inferColumnType_def claimed_columnType_def Let_def foldl_inferStep
        sampled_def[symmetric])
qed

lemma sampled_strings:
  "\<forall>s \<in> set ss. s \<noteq> [] \<Longrightarrow> length ss \<le> 100 \<Longrightarrow> sampled (map Str ss) = map trim ss"
proof -
  assume ne: "\<forall>s \<in> set ss. s \<noteq> []" and len: "length ss \<le> 100"
  have "filter (\<lambda>v. \<not> isBlank v) (map Str ss) = map Str ss"
    using ne by (induction ss) (simp_all add: isBlank_def)
  then show ?thesis using len by (simp add: sampled_def String_of_def)
qed

lemma example_integer:
  "inferColumnType rt [Str (js ''1''), Str (js ''2''), Str (js ''3'')] = INTEGER"
proof -
  have s: "sampled [Str (js ''1''), Str (js ''2''), Str (js ''3'')] = [js ''1'', js ''2'', js ''3'']"
    using sampled_strings[of "[js ''1'', js ''2'', js ''3'']"] by (simp add: str_eval)
  have "list_all integerPattern [js ''1'', js ''2'', js ''3'']"
    by (simp add: integerPattern_def str_eval)
  then show ?thesis by (simp add: inferColumnType_claimed claimed_columnType_def s)
qed

lemma example_real:
  "inferColumnType rt [Str (js ''1.5''), Str (js ''2'')] = REAL"
proof -
  have s: "sampled [Str (js ''1.5''), Str (js ''2'')] = [js ''1.5'', js ''2'']"
    using sampled_strings[of "[js ''1.5'', js ''2'']"] by (simp add: str_eval)
  have "\<not> list_all integerPattern [js ''1.5'', js ''2'']"
    by (simp add: integerPattern_def str_eval)
  moreover have "list_all realPattern [js ''1.5'', js ''2'']"
    by (simp add: realPattern_def str_eval)
  ultimately show ?thesis by (simp add: inferColumnType_claimed claimed_columnType_def s)
qed

lemma example_date:
  assumes "parseDate rt (js ''2024-01-01'') \<noteq> None" "parseDate rt (js ''2024-02-15'') \<noteq> None"
  shows "inferColumnType rt [Str (js ''2024-01-01''), Str (js ''2024-02-15'')] = DATE"
proof -
  have s: "sampled [Str (js ''2024-01-01''), Str (js ''2024-02-15'')]
             = [js ''2024-01-01'', js ''2024-02-15'']"
    using sampled_strings[of "[js ''2024-01-01'', js ''2024-02-15'']"] by (simp add: str_eval)
  have "\<not> integerPattern (js ''2024-01-01'')"
    by (simp add: integerPattern_def str_eval)
  moreover have "\<not> realPattern (js ''2024-01-01'')"
    by (simp add: realPattern_def str_eval)
  moreover have "hasDatePattern (js ''2024-01-01'')" "hasDatePattern (js ''2024-02-15'')"
    by (simp_all add: hasDatePattern_def isSeparator_def str_eval)
  ultimately show ?thesis
    using assms by (simp add: inferColumnType_claimed claimed_columnType_def s)
qed

lemma example_text:
  "inferColumnType rt [Str (js ''a''), Str (js ''1'')] = TEXT"
proof -
  have s: "sampled [Str (js ''a''), Str (js ''1'')] = [js ''a'', js ''1'']"
    using sampled_strings[of "[js ''a'', js ''1'']"] by (simp add: str_eval)
  have "\<not> integerPattern (js ''a'')"
    by (simp add: integerPattern_def str_eval)
  moreover have "\<not> realPattern (js ''a'')"
    by (simp add: realPattern_def str_eval)
  moreover have "\<not> hasDatePattern (js ''a'')"
    by (simp add: hasDatePattern_def isSeparator_def str_eval)
  ultimately show ?thesis by (simp add: inferColumnType_claimed claimed_columnType_def s)
qed

text \<open>
  C4. On the sample (the trimmed string forms of the first 100 values that are neither
  \<open>null\<close>, \<open>undefined\<close> nor the empty string) the inferred type is INTEGER if every
  sampled value matches the integer pattern, else REAL if every one matches the numeric
  pattern, else DATE if every one matches a date pattern and is parsed to a valid date by
  the host, else TEXT; a column without such values is TEXT. The four examples of the
  specification come out as stated, the date example for every host whose \<open>Date\<close> accepts
  the two ISO dates.
\<close>

theorem inferColumnType_priority:
  "inferColumnType rt values =
     (if sampled values = [] then TEXT
      else if list_all integerPattern (sampled values) then INTEGER
      else if list_all realPattern (sampled values) then REAL
      else if list_all (\<lambda>s. hasDatePattern s \<and> parseDate rt s \<noteq> None) (sampled values) then DATE
      else TEXT) \<and>
   length (sampled values) \<le> 100 \<and>
   ((\<forall>v \<in> set values. isBlank v) \<longrightarrow> inferColumnType rt values = TEXT) \<and>
   inferColumnType rt [Str (js ''1''), Str (js ''2''), Str (js ''3'')] = INTEGER \<and>
   inferColumnType rt [Str (js ''1.5''), Str (js ''2'')] = REAL \<and>
   (parseDate rt (js ''2024-01-01'') \<noteq> None \<and> parseDate rt (js ''2024-02-15'') \<noteq> None \<longrightarrow>
      inferColumnType rt [Str (js ''2024-01-01''), Str (js ''2024-02-15'')] = DATE) \<and>
   inferColumnType rt [Str (js ''a''), Str (js ''1'')] = TEXT"
proof (intro conjI impI)
  show "inferColumnType rt values =
     (if sampled values = [] then TEXT
      else if list_all integerPattern (sampled values) then INTEGER
      else if list_all realPattern (sampled values) then REAL
      else if list_all (\<lambda>s. hasDatePattern s \<and> parseDate rt s \<noteq> None) (sampled values) then DATE
      else TEXT)"
    using inferColumnType_claimed[of rt "values"] by (simp add: claimed_columnType_def)
  show "length (sampled values) \<le> 100" by (simp add: sampled_def)
  show "inferColumnType rt [Str (js ''1''), Str (js ''2''), Str (js ''3'')] = INTEGER"
    by (rule example_integer)
  show "inferColumnType rt [Str (js ''1.5''), Str (js ''2'')] = REAL"
    by (rule example_real)
  show "inferColumnType rt [Str (js ''a''), Str (js ''1'')] = TEXT"
    by (rule example_text)
next
  assume "\<forall>v \<in> set values. isBlank v"
  then have "filter (\<lambda>v. \<not> isBlank v) values = []" by (simp add: filter_empty_conv)
  then show "inferColumnType rt values = TEXT" by (simp add: inferColumnType_def)
next
  assume "parseDate rt (js ''2024-01-01'') \<noteq> None \<and> parseDate rt (js ''2024-02-15'') \<noteq> None"
  then show "inferColumnType rt [Str (js ''2024-01-01''), Str (js ''2024-02-15'')] = DATE"
    using example_date by blast
qed

text \<open>The reference runtime accepts the two dates; a column of blanks is TEXT.\<close>

theorem inferColumnType_priority_witness:
  "parseDate referenceRuntime (js ''2024-01-01'') \<noteq> None \<and>
   parseDate referenceRuntime (js ''2024-02-15'') \<noteq> None \<and>
   inferColumnType referenceRuntime [Str (js ''2024-01-01''), Str (js ''2024-02-15'')] = DATE \<and>
   inferColumnType referenceRuntime [Null, Str [], Undefined] = TEXT"
proof -
  have d: "parseDate referenceRuntime (js ''2024-01-01'') \<noteq> None \<and>
           parseDate referenceRuntime (js ''2024-02-15'') \<noteq> None"
    by (simp add: referenceRuntime_def isoDateOnly_def str_eval)
  have b: "\<forall>v \<in> set [Null, Str [], Undefined]. isBlank v"
    by (simp add: isBlank_def)
  show ?thesis
    using d b inferColumnType_priority [of referenceRuntime "[Null, Str [], Undefined]"]
    by blast
qed

section \<open>Bulk load\<close>

lemma insertRows_all_accepted:
  "(\<forall>r \<in> set rows. insertFails (rowValues rt columnNames columnTypes r) = None) \<Longrightarrow>
     insertRows insertFails rt columnNames columnTypes inserted rows
       = Inr (inserted @ map (rowValues rt columnNames columnTypes) rows)"
  by (induction rows arbitrary: inserted) (simp_all add: Let_def)

lemma insertRows_failure:
  "insertRows insertFails rt columnNames columnTypes inserted rows = Inl msg \<Longrightarrow>
     \<exists>r \<in> set rows. insertFails (rowValues rt columnNames columnTypes r) = Some msg"
  by (induction rows arbitrary: inserted) (auto simp: Let_def split: option.splits)

text \<open>
  C3 (as amended). A blank cell (\<open>null\<close>, \<open>undefined\<close> or the empty string) is stored as
  null whatever the column type. A cell that is not blank is stored as null when its column
  is INTEGER or REAL and the host's parser returns \<open>NaN\<close> on it. In a DATE column a cell
  the host cannot parse is stored as its trimmed text, not as null. No conversion fails a
  row or the load: when the engine accepts every insert the load stores one converted row
  per input row, and a load that fails does so with the message of a failed insert.
\<close>

theorem convertValue_degrades:
  "(isBlank value \<longrightarrow> convertValue rt columnType value = SqlNull) \<and>
   (\<not> isBlank value \<and> parseInt10 rt (trim (String_of value)) = None \<longrightarrow>
      convertValue rt (Some INTEGER) value = SqlNull) \<and>
   (\<not> isBlank value \<and> parseFloat rt (trim (String_of value)) = None \<longrightarrow>
      convertValue rt (Some REAL) value = SqlNull) \<and>
   (\<not> isBlank value \<and> parseDate rt (trim (String_of value)) = None \<longrightarrow>
      convertValue rt (Some DATE) value = SqlText (trim (String_of value))) \<and>
   ((\<forall>r \<in> set rows. insertFails (rowValues rt columnNames columnTypes r) = None) \<longrightarrow>
      insertRows insertFails rt columnNames columnTypes [] rows
        = Inr (map (rowValues rt columnNames columnTypes) rows)) \<and>
   (insertRows insertFails rt columnNames columnTypes [] rows = Inl msg \<longrightarrow>
      (\<exists>r \<in> set rows. insertFails (rowValues rt columnNames columnTypes r) = Some msg))"
  using insertRows_all_accepted[of rows insertFails rt columnNames columnTypes "[]"]
    insertRows_failure[of insertFails rt columnNames columnTypes "[]" rows msg]
  by (simp add: convertValue_def Let_def)

text \<open>A load of two rows into an INTEGER column, the second cell not a number.\<close>

theorem convertValue_degrades_witness:
  "convertValue referenceRuntime (Some INTEGER) (Str []) = SqlNull \<and>
   convertValue referenceRuntime (Some INTEGER) (Str (js ''n/a'')) = SqlNull \<and>
   convertValue referenceRuntime (Some REAL) (Str (js ''n/a'')) = SqlNull \<and>
   convertValue referenceRuntime (Some DATE) (Str (js ''n/a'')) = SqlText (js ''n/a'') \<and>
   insertRows (\<lambda>values. None) referenceRuntime [js ''amount''] [js ''amount'' \<mapsto> INTEGER] []
       [[js ''amount'' \<mapsto> Str (js ''12'')], [js ''amount'' \<mapsto> Str (js ''n/a'')]]
     = Inr [[SqlNumber (js ''12'')], [SqlNull]]"
proof -
  have b: "isBlank (Str [])" "\<not> isBlank (Str (js ''n/a''))"
    by (simp_all add: isBlank_def js_def)
  have t: "trim (String_of (Str (js ''n/a''))) = js ''n/a''"
    by (simp add: String_of_def str_eval)
  have p: "parseInt10 referenceRuntime (js ''n/a'') = None"
    "parseFloat referenceRuntime (js ''n/a'') = None"
    "parseDate referenceRuntime (js ''n/a'') = None"
    by (simp_all add: referenceRuntime_def leadingInteger_def leadingDecimal_def isoDateOnly_def
        str_eval)
  have v: "map (rowValues referenceRuntime [js ''amount''] [js ''amount'' \<mapsto> INTEGER])
             [[js ''amount'' \<mapsto> Str (js ''12'')], [js ''amount'' \<mapsto> Str (js ''n/a'')]]
           = [[SqlNumber (js ''12'')], [SqlNull]]"
    by (simp add: rowValues_def convertValue_def isBlank_def String_of_def referenceRuntime_def
        leadingInteger_def Let_def str_eval)
  show ?thesis
    using b t p v
      convertValue_degrades [of "Str []" referenceRuntime "Some INTEGER"]
      convertValue_degrades [of "Str (js ''n/a'')" referenceRuntime "Some INTEGER"
        "[[js ''amount'' \<mapsto> Str (js ''12'')], [js ''amount'' \<mapsto> Str (js ''n/a'')]]"
        "\<lambda>values. None" "[js ''amount'']" "[js ''amount'' \<mapsto> INTEGER]"]
    by simp
qed

text \<open>In a DATE column the text \<open>n/a\<close> is kept as text.\<close>

theorem convertValue_date_counterexample:
  "\<not> isBlank (Str (js ''n/a'')) \<and>
   parseDate referenceRuntime (trim (String_of (Str (js ''n/a'')))) = None \<and>
   convertValue referenceRuntime (Some DATE) (Str (js ''n/a'')) = SqlText (js ''n/a'') \<and>
   convertValue referenceRuntime (Some DATE) (Str (js ''n/a'')) \<noteq> SqlNull"
  by (simp add: convertValue_def isBlank_def String_of_def referenceRuntime_def isoDateOnly_def
      Let_def str_eval)

section \<open>Deleting a dataset\<close>

lemmas db_eval = DELETE_def db_selectOne_file_def clearChatHistory_def db_execute_def
  db_select_history_def getAllChatHistory_def getChatHistoryCount_def getChatHistoryPaginated_def
  turnsOf_def orderAsc_def orderDesc_def limitOffset_def noFaults_def dropFails_def
  exampleDatabase_def exampleTurn_def tableNameOf_def pageItems_def allItems_def Let_def

lemma db_selectOne_file_journal:
  "journal (snd (db_selectOne_file faults ident d)) = journal d @ [SelectFile ident]"
  by (simp add: db_selectOne_file_def split: option.splits)

lemma db_execute_journal:
  "journal (snd (db_execute faults stmt d)) = journal d @ [stmt]"
  by (simp add: db_execute_def split: option.splits)

lemma db_execute_result:
  "fst (db_execute faults stmt d) = (case faults stmt of Some msg \<Rightarrow> Inl msg | None \<Rightarrow> Inr ())"
  by (simp add: db_execute_def split: option.splits)

text \<open>
  C7 (as amended). The handler first looks the dataset up; when the lookup fails or finds
  nothing it answers 404 and attempts nothing else. Otherwise it performs its three steps
  in this order: clear the conversation history, drop the isolated table, remove the
  registry row. A failure to clear the history does not change the answer and the handler
  goes on; a failure to drop the table makes the whole operation fail before the registry
  row is touched; a failure to remove the registry row makes it fail as well.
\<close>

theorem DELETE_order:
  "(fst (db_selectOne_file faults ident d) = Inr (Some fileData) \<longrightarrow>
      journal (snd (DELETE faults ident d)) =
        journal d @ [SelectFile ident, DeleteHistory ident, DropTable (tableNameOf ident)] @
        (if faults (DropTable (tableNameOf ident)) = None then [DeleteFile ident] else []) \<and>
      fst (DELETE faults ident d) =
        (case faults (DropTable (tableNameOf ident)) of
           Some msg \<Rightarrow> Failed500 msg
         | None \<Rightarrow>
             (case faults (DeleteFile ident) of Some msg \<Rightarrow> Failed500 msg | None \<Rightarrow> Deleted))) \<and>
   ((\<forall>row. fst (db_selectOne_file faults ident d) \<noteq> Inr (Some row)) \<longrightarrow>
      fst (DELETE faults ident d) = NotFound404 \<and>
      journal (snd (DELETE faults ident d)) = journal d @ [SelectFile ident])"
proof (intro conjI impI)
  assume found: "fst (db_selectOne_file faults ident d) = Inr (Some fileData)"
  obtain d1 where d1: "db_selectOne_file faults ident d = (Inr (Some fileData), d1)"
    using found by (cases "db_selectOne_file faults ident d") auto
  have j1: "journal d1 = journal d @ [SelectFile ident]"
    using db_selectOne_file_journal[of faults ident d] d1 by simp
  let ?d2 = "snd (clearChatHistory faults ident d1)"
  have j2: "journal ?d2 = journal d @ [SelectFile ident, DeleteHistory ident]"
    using db_execute_journal[of faults "DeleteHistory ident" d1] j1
    by (simp add: clearChatHistory_def)
  obtain r3 d3 where d3: "db_execute faults (DropTable (tableNameOf ident)) ?d2 = (r3, d3)"
    by (cases "db_execute faults (DropTable (tableNameOf ident)) ?d2")
  have j3: "journal d3 = journal d @ [SelectFile ident, DeleteHistory ident, DropTable (tableNameOf ident)]"
    using db_execute_journal[of faults "DropTable (tableNameOf ident)" ?d2] d3 j2 by simp
  have r3: "r3 = (case faults (DropTable (tableNameOf ident)) of Some msg \<Rightarrow> Inl msg | None \<Rightarrow> Inr ())"
    using db_execute_result[of faults "DropTable (tableNameOf ident)" ?d2] d3 by simp
  obtain r4 d4 where d4: "db_execute faults (DeleteFile ident) d3 = (r4, d4)"
    by (cases "db_execute faults (DeleteFile ident) d3")
  have j4: "journal d4 = journal d3 @ [DeleteFile ident]"
    using db_execute_journal[of faults "DeleteFile ident" d3] d4 by simp
  have r4: "r4 = (case faults (DeleteFile ident) of Some msg \<Rightarrow> Inl msg | None \<Rightarrow> Inr ())"
    using db_execute_result[of faults "DeleteFile ident" d3] d4 by simp
  have del: "DELETE faults ident d =
      (case r3 of Inl msg \<Rightarrow> (Failed500 msg, d3)
       | Inr u \<Rightarrow> (case r4 of Inl msg \<Rightarrow> (Failed500 msg, d4) | Inr u \<Rightarrow> (Deleted, d4)))"
    by (simp add: DELETE_def d1 d3 d4 Let_def split: sum.splits)
  show "journal (snd (DELETE faults ident d)) =
        journal d @ [SelectFile ident, DeleteHistory ident, DropTable (tableNameOf ident)] @
        (if faults (DropTable (tableNameOf ident)) = None then [DeleteFile ident] else [])"
    using del r3 r4 j3 j4 by (auto split: option.splits)
  show "fst (DELETE faults ident d) =
        (case faults (DropTable (tableNameOf ident)) of
           Some msg \<Rightarrow> Failed500 msg
         | None \<Rightarrow>
             (case faults (DeleteFile ident) of Some msg \<Rightarrow> Failed500 msg | None \<Rightarrow> Deleted))"
    using del r3 r4 by (auto split: option.splits)
next
  assume nf: "\<forall>row. fst (db_selectOne_file faults ident d) \<noteq> Inr (Some row)"
  obtain r1 d1 where d1: "db_selectOne_file faults ident d = (r1, d1)"
    by (cases "db_selectOne_file faults ident d")
  have j1: "journal d1 = journal d @ [SelectFile ident]"
    using db_selectOne_file_journal[of faults ident d] d1 by simp
  have "DELETE faults ident d = (NotFound404, d1)"
    using nf d1 by (auto simp: DELETE_def split: sum.splits option.splits)
  then show "fst (DELETE faults ident d) = NotFound404"
    "journal (snd (DELETE faults ident d)) = journal d @ [SelectFile ident]"
    using j1 by simp_all
qed

text \<open>A dataset whose table cannot be dropped, and a dataset that does not exist.\<close>

theorem DELETE_order_witness:
  "journal (snd (DELETE dropFails (js ''x'') exampleDatabase)) =
     [SelectFile (js ''x''), DeleteHistory (js ''x''), DropTable (js ''data_x'')] \<and>
   fst (DELETE dropFails (js ''x'') exampleDatabase) = Failed500 (js ''database is locked'') \<and>
   fst (DELETE noFaults (js ''y'') exampleDatabase) = NotFound404"
proof -
  have f: "fst (db_selectOne_file dropFails (js ''x'') exampleDatabase)
             = Inr (Some \<lparr>file_id = js ''x'', file_name = js ''sales.csv'', displayName = None\<rparr>)"
    by (simp add: db_selectOne_file_def dropFails_def exampleDatabase_def)
  have n: "\<forall>row. fst (db_selectOne_file noFaults (js ''y'') exampleDatabase) \<noteq> Inr (Some row)"
    by (simp add: db_selectOne_file_def noFaults_def exampleDatabase_def js_def)
  have j: "journal exampleDatabase = []" by (simp add: exampleDatabase_def)
  have t: "tableNameOf (js ''x'') = js ''data_x''" by (simp add: tableNameOf_def js_def)
  have d: "dropFails (DropTable (js ''data_x'')) = Some (js ''database is locked'')"
    by (simp add: dropFails_def)
  show ?thesis
    using f n j t d
      DELETE_order [of dropFails "js ''x''" exampleDatabase
        "\<lparr>file_id = js ''x'', file_name = js ''sales.csv'', displayName = None\<rparr>"]
      DELETE_order [of noFaults "js ''y''" exampleDatabase]
    by simp
qed

text \<open>
  The history is cleared before the table is dropped, not after it: the journal shows the
  order, and when the drop fails the turns are already gone while the table is still there.
\<close>

theorem DELETE_order_counterexample:
  "journal (snd (DELETE noFaults (js ''x'') exampleDatabase)) =
     [SelectFile (js ''x''), DeleteHistory (js ''x''), DropTable (js ''data_x''),
      DeleteFile (js ''x'')] \<and>
   fst (DELETE dropFails (js ''x'') exampleDatabase) = Failed500 (js ''database is locked'') \<and>
   chat_history (snd (DELETE dropFails (js ''x'') exampleDatabase)) = [] \<and>
   map fst (tables (snd (DELETE dropFails (js ''x'') exampleDatabase))) = [js ''data_x'']"
  by (simp add: db_eval js_def)


lemma effect_turns_delete_history:
  "turnsOf (effect (DeleteHistory ident) d) ident = []"
  by (simp add: turnsOf_def filter_empty_conv)

lemma DELETE_deleted:
  assumes "fst (DELETE faults ident d) = Deleted"
  shows "files (snd (DELETE faults ident d)) = filter (\<lambda>f. file_id f \<noteq> ident) (files d)"
    and "tables (snd (DELETE faults ident d))
           = filter (\<lambda>(n, cols). n \<noteq> tableNameOf ident) (tables d)"
    and "chat_history (snd (DELETE faults ident d))
           = filter (\<lambda>t. turn_fileId t \<noteq> ident) (chat_history d)"
proof -
  obtain r1 d1 where d1: "db_selectOne_file faults ident d = (r1, d1)"
    by (cases "db_selectOne_file faults ident d")
  obtain row where r1: "r1 = Inr (Some row)"
    using assms d1 by (auto simp: DELETE_def split: sum.splits option.splits)
  have d1': "d1 = d\<lparr>journal := journal d @ [SelectFile ident]\<rparr>"
    using d1 by (auto simp: db_selectOne_file_def split: option.splits)
  show "files (snd (DELETE faults ident d)) = filter (\<lambda>f. file_id f \<noteq> ident) (files d)"
    using assms
    by (auto simp: DELETE_def d1 r1 d1' clearChatHistory_def db_execute_def Let_def
        split: option.splits)
  show "tables (snd (DELETE faults ident d))
           = filter (\<lambda>(n, cols). n \<noteq> tableNameOf ident) (tables d)"
    using assms
    by (auto simp: DELETE_def d1 r1 d1' clearChatHistory_def db_execute_def Let_def
        split: option.splits)
  show "chat_history (snd (DELETE faults ident d))
           = filter (\<lambda>t. turn_fileId t \<noteq> ident) (chat_history d)"
    using assms
    by (auto simp: DELETE_def d1 r1 d1' clearChatHistory_def db_execute_def Let_def
        split: option.splits)
qed

text \<open>
  C8 (as amended). A deletion that succeeds leaves no conversation turn, no table and no
  registry row for the dataset. A later \<open>getTableSchemaTool\<close> call has
  no check of its own for a missing dataset: it succeeds exactly when the reasoning callback
  returns and the engine answers the \<open>table_info\<close> statement, it reports the engine's
  message when the engine fails, and when the engine answers with no rows it returns a
  success with an empty schema.
\<close>

theorem delete_then_getSchema:
  "(fst (DELETE faults ident d) = Deleted \<longrightarrow>
      turnsOf (snd (DELETE faults ident d)) ident = [] \<and>
      tableNameOf ident \<notin> fst ` set (tables (snd (DELETE faults ident d))) \<and>
      ident \<notin> file_id ` set (files (snd (DELETE faults ident d)))) \<and>
   (success (fst (getTableSchemaTool eng ident reasoning w)) \<longleftrightarrow>
      fst (emitReasoning reasoning w) = Inr () \<and> (\<exists>rows. eng (tableInfoQuery ident) = Inr rows)) \<and>
   (fst (emitReasoning reasoning w) = Inr () \<and> eng (tableInfoQuery ident) = Inl msg \<longrightarrow>
      error (fst (getTableSchemaTool eng ident reasoning w)) = Some (EngineError msg)) \<and>
   (fst (emitReasoning reasoning w) = Inr () \<and> eng (tableInfoQuery ident) = Inr [] \<longrightarrow>
      success (fst (getTableSchemaTool eng ident reasoning w)) \<and>
      data (fst (getTableSchemaTool eng ident reasoning w)) = Some [])"
proof (intro conjI impI)
  assume a: "fst (DELETE faults ident d) = Deleted"
  have "chat_history (snd (DELETE faults ident d))
               = filter (\<lambda>t. turn_fileId t \<noteq> ident) (chat_history d)"
    using DELETE_deleted(3)[OF a] .
  then show "turnsOf (snd (DELETE faults ident d)) ident = []"
    by (simp add: turnsOf_def filter_empty_conv)
  show "tableNameOf ident \<notin> fst ` set (tables (snd (DELETE faults ident d)))"
    using DELETE_deleted(2)[OF a] by auto
  show "ident \<notin> file_id ` set (files (snd (DELETE faults ident d)))"
    using DELETE_deleted(1)[OF a] by auto
next
  show "success (fst (getTableSchemaTool eng ident reasoning w)) \<longleftrightarrow>
      fst (emitReasoning reasoning w) = Inr () \<and> (\<exists>rows. eng (tableInfoQuery ident) = Inr rows)"
    by (cases "emitReasoning reasoning w")
       (auto simp: getTableSchemaTool_def getTableSchemaBody_def db_select_def caught_def
          succeeded_def Let_def split: sum.splits)
next
  assume "fst (emitReasoning reasoning w) = Inr () \<and> eng (tableInfoQuery ident) = Inl msg"
  then show "error (fst (getTableSchemaTool eng ident reasoning w)) = Some (EngineError msg)"
    by (cases "emitReasoning reasoning w")
       (auto simp: getTableSchemaTool_def getTableSchemaBody_def db_select_def caught_def
          succeeded_def Let_def split: sum.splits)
next
  assume a: "fst (emitReasoning reasoning w) = Inr () \<and> eng (tableInfoQuery ident) = Inr []"
  then show "success (fst (getTableSchemaTool eng ident reasoning w))"
    by (cases "emitReasoning reasoning w")
       (auto simp: getTableSchemaTool_def getTableSchemaBody_def db_select_def caught_def
          succeeded_def Let_def split: sum.splits)
  from a show "data (fst (getTableSchemaTool eng ident reasoning w)) = Some []"
    by (cases "emitReasoning reasoning w")
       (auto simp: getTableSchemaTool_def getTableSchemaBody_def db_select_def caught_def
          succeeded_def Let_def split: sum.splits)
qed

text \<open>
  The example dataset, deleted, behind an engine that answers as SQLite does; and deleted
  when clearing the history fails, where the turns go with the registry row.
\<close>

theorem delete_then_getSchema_witness:
  "turnsOf (snd (DELETE noFaults (js ''x'') exampleDatabase)) (js ''x'') = [] \<and>
   turnsOf (snd (DELETE historyFails (js ''x'') exampleDatabase)) (js ''x'') = [] \<and>
   success (fst (getTableSchemaTool
                   (tableInfoEngine (snd (DELETE noFaults (js ''x'') exampleDatabase)))
                   (js ''x'') None quietWorld)) \<and>
   data (fst (getTableSchemaTool
                (tableInfoEngine (snd (DELETE noFaults (js ''x'') exampleDatabase)))
                (js ''x'') None quietWorld)) = Some []"
proof -
  let ?d = "snd (DELETE noFaults (js ''x'') exampleDatabase)"
  have ok: "fst (DELETE noFaults (js ''x'') exampleDatabase) = Deleted"
    by (simp add: db_eval js_def)
  have okh: "fst (DELETE historyFails (js ''x'') exampleDatabase) = Deleted"
    by (simp add: db_eval historyFails_def js_def)
  have e: "fst (emitReasoning None quietWorld) = Inr ()" by (simp add: emitReasoning_def)
  have q: "tableInfoEngine ?d (tableInfoQuery (js ''x'')) = Inr []"
    by (simp add: db_eval tableInfoEngine_def tableInfoQuery_def str_eval)
  show ?thesis
    using ok okh e q
      delete_then_getSchema [of noFaults "js ''x''" exampleDatabase "tableInfoEngine ?d" None
        quietWorld]
      delete_then_getSchema [of historyFails "js ''x''" exampleDatabase "tableInfoEngine ?d" None
        quietWorld]
    by simp
qed

text \<open>After the deletion the schema call is an empty success, with no error at all.\<close>

theorem delete_then_getSchema_counterexample:
  "fst (DELETE noFaults (js ''x'') exampleDatabase) = Deleted \<and>
   success (fst (getTableSchemaTool
                   (tableInfoEngine (snd (DELETE noFaults (js ''x'') exampleDatabase)))
                   (js ''x'') None quietWorld)) \<and>
   data (fst (getTableSchemaTool
                (tableInfoEngine (snd (DELETE noFaults (js ''x'') exampleDatabase)))
                (js ''x'') None quietWorld)) = Some [] \<and>
   error (fst (getTableSchemaTool
                 (tableInfoEngine (snd (DELETE noFaults (js ''x'') exampleDatabase)))
                 (js ''x'') None quietWorld)) = None"
  by (simp add: db_eval getTableSchemaTool_def getTableSchemaBody_def emitReasoning_def
      db_select_def tableInfoEngine_def tableInfoQuery_def succeeded_def quietWorld_def str_eval)


section \<open>Pagination of the history\<close>

lemma getChatHistoryPaginated_noFaults:
  "fst (getChatHistoryPaginated noFaults ident page limit d) =
     Inr \<lparr>history = rev (limitOffset limit ((page - 1) * limit) (orderDesc (turnsOf d ident))),
          totalCount = length (turnsOf d ident),
          hasMore = ((page - 1) * limit + limit < int (length (turnsOf d ident))),
          currentPage = page\<rparr>"
  by (simp add: getChatHistoryPaginated_def db_select_history_def getChatHistoryCount_def
      noFaults_def turnsOf_def Let_def)

lemma allItems_noFaults: "allItems noFaults ident d = orderAsc (turnsOf d ident)"
  by (simp add: allItems_def getAllChatHistory_def db_select_history_def noFaults_def)

lemma pageItems_noFaults:
  assumes "0 < limit" "1 \<le> p"
  shows "pageItems noFaults ident limit d p =
           rev (take (nat limit) (drop ((p - 1) * nat limit) (orderDesc (turnsOf d ident))))"
proof -
  have "nat ((int p - 1) * limit) = (p - 1) * nat limit"
    using assms by (simp add: nat_mult_distrib of_nat_diff)
  then show ?thesis
    using assms by (simp add: pageItems_def getChatHistoryPaginated_noFaults limitOffset_def Let_def)
qed

lemma mset_pages:
  assumes "0 < limit"
  shows "mset (concat (map (pageItems noFaults ident limit d) [1..<Suc k]))
           = mset (take (k * nat limit) (orderDesc (turnsOf d ident)))"
proof (induction k)
  case 0
  then show ?case by simp
next
  case (Suc k)
  let ?xs = "orderDesc (turnsOf d ident)"
  have "mset (concat (map (pageItems noFaults ident limit d) [1..<Suc (Suc k)]))
          = mset (concat (map (pageItems noFaults ident limit d) [1..<Suc k]))
            + mset (pageItems noFaults ident limit d (Suc k))"
    by simp
  also have "\<dots> = mset (take (k * nat limit) ?xs) + mset (take (nat limit) (drop (k * nat limit) ?xs))"
    using Suc.IH pageItems_noFaults[OF assms, of "Suc k" ident d] by simp
  also have "\<dots> = mset (take (k * nat limit + nat limit) ?xs)"
    by (simp add: take_add)
  also have "\<dots> = mset (take (Suc k * nat limit) ?xs)"
    by (simp add: add.commute)
  finally show ?case .
qed

lemma sorted_rev_desc:
  "sorted (map timestamp (rev (take n (drop m (orderDesc ts)))))"
proof -
  have "sorted (map (\<lambda>t. - int (timestamp t)) (orderDesc ts))"
    by (simp add: orderDesc_def)
  then have "sorted_wrt (\<lambda>a b. timestamp b \<le> timestamp a) (orderDesc ts)"
    by (simp add: sorted_map)
  then have "sorted_wrt (\<lambda>a b. timestamp b \<le> timestamp a) (take n (drop m (orderDesc ts)))"
    by (intro sorted_wrt_take sorted_wrt_drop)
  then show ?thesis
    by (simp add: sorted_wrt_rev rev_map[symmetric] sorted_wrt_map)
qed


lemma mset_orderDesc: "mset (orderDesc ts) = mset ts"
  by (simp add: orderDesc_def)

lemma mset_orderAsc: "mset (orderAsc ts) = mset ts"
  by (simp add: orderAsc_def)

lemma pages_cover:
  assumes "0 < limit" "int (length (turnsOf d ident)) \<le> int k * limit"
  shows "mset (concat (map (pageItems noFaults ident limit d) [1..<Suc k]))
           = mset (allItems noFaults ident d)"
proof -
  have "int (k * nat limit) = int k * limit"
    using assms(1) by simp
  then have "int (length (turnsOf d ident)) \<le> int (k * nat limit)"
    using assms(2) by linarith
  then have "length (turnsOf d ident) \<le> k * nat limit"
    by (simp only: of_nat_le_iff)
  then have "length (orderDesc (turnsOf d ident)) \<le> k * nat limit"
    by (simp add: orderDesc_def)
  then have "take (k * nat limit) (orderDesc (turnsOf d ident)) = orderDesc (turnsOf d ident)"
    by simp
  then show ?thesis
    using mset_pages[OF assms(1), of ident d k]
    by (simp add: allItems_noFaults mset_orderDesc mset_orderAsc)
qed

lemma pages_union:
  assumes "0 < limit"
  shows "(\<Union>p \<in> {1..}. set (pageItems noFaults ident limit d p)) = set (allItems noFaults ident d)"
proof
  show "(\<Union>p \<in> {1..}. set (pageItems noFaults ident limit d p)) \<subseteq> set (allItems noFaults ident d)"
  proof
    fix t assume "t \<in> (\<Union>p \<in> {1..}. set (pageItems noFaults ident limit d p))"
    then obtain p where p: "1 \<le> p" "t \<in> set (pageItems noFaults ident limit d p)" by auto
    then have "t \<in> set (take (nat limit) (drop ((p - 1) * nat limit) (orderDesc (turnsOf d ident))))"
      using pageItems_noFaults[OF assms p(1), of ident d] by simp
    then have "t \<in> set (orderDesc (turnsOf d ident))"
      by (meson in_set_takeD in_set_dropD)
    then have "t \<in># mset (orderDesc (turnsOf d ident))" by simp
    then have "t \<in># mset (allItems noFaults ident d)"
      by (simp only: allItems_noFaults mset_orderDesc mset_orderAsc)
    then show "t \<in> set (allItems noFaults ident d)" by simp
  qed
next
  show "set (allItems noFaults ident d) \<subseteq> (\<Union>p \<in> {1..}. set (pageItems noFaults ident limit d p))"
  proof
    fix t assume t: "t \<in> set (allItems noFaults ident d)"
    let ?k = "length (turnsOf d ident)"
    have "int ?k \<le> int ?k * limit" using assms by (simp add: mult_le_cancel_left1)
    then have "mset (concat (map (pageItems noFaults ident limit d) [1..<Suc ?k]))
                 = mset (allItems noFaults ident d)"
      using pages_cover[OF assms] by blast
    then have "set (concat (map (pageItems noFaults ident limit d) [1..<Suc ?k]))
                 = set (allItems noFaults ident d)"
      by (rule mset_eq_setD)
    then obtain p where "p \<in> set [1..<Suc ?k]" "t \<in> set (pageItems noFaults ident limit d p)"
      using t by auto
    then show "t \<in> (\<Union>p \<in> {1..}. set (pageItems noFaults ident limit d p))" by auto
  qed
qed

text \<open>
  C9 (as amended). With an engine that answers every statement and a page size above
  zero: page \<open>page\<close> (from 1 on) holds the window of that size at offset
  \<open>(page - 1) * limit\<close> of the newest-first list, in ascending order of time; its
  \<open>totalCount\<close> is the number of turns stored for the dataset, which is the length of
  \<open>getAllChatHistory\<close>; its \<open>hasMore\<close> is true exactly when turns beyond the window
  remain. The pages 1 to \<open>k\<close>, concatenated, hold the same turns as the full history
  reversed as soon as \<open>k\<close> pages cover the count, and all pages together hold exactly the
  turns of the full history.
\<close>

theorem pagination_reconstructs:
  assumes "0 < limit" and "1 \<le> page"
  shows "(\<exists>r. fst (getChatHistoryPaginated noFaults ident page limit d) = Inr r \<and>
           history r = rev (take (nat limit) (drop (nat ((page - 1) * limit))
                              (orderDesc (turnsOf d ident)))) \<and>
           sorted (map timestamp (history r)) \<and>
           totalCount r = length (turnsOf d ident) \<and>
           totalCount r = length (allItems noFaults ident d) \<and>
           (hasMore r \<longleftrightarrow> drop (nat (page * limit)) (orderDesc (turnsOf d ident)) \<noteq> []) \<and>
           (hasMore r \<longleftrightarrow> page * limit < int (totalCount r)) \<and>
           currentPage r = page) \<and>
         (\<forall>k. int (length (turnsOf d ident)) \<le> int k * limit \<longrightarrow>
           mset (concat (map (pageItems noFaults ident limit d) [1..<Suc k]))
             = mset (rev (allItems noFaults ident d))) \<and>
         (\<Union>p \<in> {1..}. set (pageItems noFaults ident limit d p))
           = set (rev (allItems noFaults ident d))"
proof -
  let ?r = "\<lparr>history = rev (limitOffset limit ((page - 1) * limit) (orderDesc (turnsOf d ident))),
          totalCount = length (turnsOf d ident),
          hasMore = ((page - 1) * limit + limit < int (length (turnsOf d ident))),
          currentPage = page\<rparr>"
  have r: "fst (getChatHistoryPaginated noFaults ident page limit d) = Inr ?r"
    by (rule getChatHistoryPaginated_noFaults)
  have h: "history ?r = rev (take (nat limit) (drop (nat ((page - 1) * limit))
                              (orderDesc (turnsOf d ident))))"
    using assms by (simp add: limitOffset_def Let_def)
  have s: "sorted (map timestamp (history ?r))"
    unfolding h by (rule sorted_rev_desc)
  have eq: "(page - 1) * limit + limit = page * limit" by (simp add: algebra_simps)
  have nn: "0 \<le> page * limit" using assms by simp
  have len: "length (orderDesc (turnsOf d ident)) = length (turnsOf d ident)"
    by (simp add: orderDesc_def)
  have m1: "hasMore ?r \<longleftrightarrow> drop (nat (page * limit)) (orderDesc (turnsOf d ident)) \<noteq> []"
    using nn by (simp add: eq len) linarith
  have m2: "hasMore ?r \<longleftrightarrow> page * limit < int (totalCount ?r)"
    by (simp add: eq)
  have c: "totalCount ?r = length (allItems noFaults ident d)"
    by (simp add: allItems_noFaults orderAsc_def)
  have p1: "\<exists>r. fst (getChatHistoryPaginated noFaults ident page limit d) = Inr r \<and>
           history r = rev (take (nat limit) (drop (nat ((page - 1) * limit))
                              (orderDesc (turnsOf d ident)))) \<and>
           sorted (map timestamp (history r)) \<and>
           totalCount r = length (turnsOf d ident) \<and>
           totalCount r = length (allItems noFaults ident d) \<and>
           (hasMore r \<longleftrightarrow> drop (nat (page * limit)) (orderDesc (turnsOf d ident)) \<noteq> []) \<and>
           (hasMore r \<longleftrightarrow> page * limit < int (totalCount r)) \<and>
           currentPage r = page"
    using r h s m1 m2 c by (intro exI[of _ ?r]) simp
  have p2: "\<forall>k. int (length (turnsOf d ident)) \<le> int k * limit \<longrightarrow>
           mset (concat (map (pageItems noFaults ident limit d) [1..<Suc k]))
             = mset (rev (allItems noFaults ident d))"
    using pages_cover[OF assms(1)] by simp
  have p3: "(\<Union>p \<in> {1..}. set (pageItems noFaults ident limit d p))
           = set (rev (allItems noFaults ident d))"
    using pages_union[OF assms(1)] by simp
  show ?thesis using p1 p2 p3 by blast
qed

lemma pageItems_zero_limit: "pageItems noFaults ident 0 d p = []"
  by (simp add: pageItems_def getChatHistoryPaginated_noFaults limitOffset_def)

lemma pages_zero_limit:
  "concat (map (pageItems noFaults ident 0 d) ps) = []"
  by (simp add: pageItems_zero_limit)

text \<open>Three turns in pages of two.\<close>

theorem pagination_reconstructs_witness:
  "(\<exists>r. fst (getChatHistoryPaginated noFaults (js ''x'') 1 2 exampleDatabase) = Inr r \<and>
        sorted (map timestamp (history r)) \<and> totalCount r = 3 \<and> hasMore r) \<and>
   mset (concat (map (pageItems noFaults (js ''x'') 2 exampleDatabase) [1..<Suc 2]))
     = mset (rev (allItems noFaults (js ''x'') exampleDatabase))"
proof -
  have l: "length (turnsOf exampleDatabase (js ''x'')) = 3"
    by (simp add: turnsOf_def exampleDatabase_def exampleTurn_def)
  have k: "int (length (turnsOf exampleDatabase (js ''x''))) \<le> int 2 * 2"
    by (simp add: l)
  have a: "(0::int) < 2" "(1::int) \<le> 1" by simp_all
  note t = pagination_reconstructs [OF a, of "js ''x''" exampleDatabase]
  from t obtain r where r: "fst (getChatHistoryPaginated noFaults (js ''x'') 1 2 exampleDatabase) = Inr r"
    "sorted (map timestamp (history r))" "totalCount r = length (turnsOf exampleDatabase (js ''x''))"
    "hasMore r \<longleftrightarrow> 1 * 2 < int (totalCount r)"
    by blast
  have "hasMore r" using r(3,4) l by simp
  then have p1: "\<exists>r. fst (getChatHistoryPaginated noFaults (js ''x'') 1 2 exampleDatabase) = Inr r \<and>
        sorted (map timestamp (history r)) \<and> totalCount r = 3 \<and> hasMore r"
    using r l by auto
  have p2: "mset (concat (map (pageItems noFaults (js ''x'') 2 exampleDatabase) [1..<Suc 2]))
     = mset (rev (allItems noFaults (js ''x'') exampleDatabase))"
    using t k by blast
  show ?thesis using p1 p2 by blast
qed

text \<open>
  With a page size of zero every page is empty and \<open>hasMore\<close> stays true: no number of
  pages holds the three turns of the dataset.
\<close>

theorem pagination_zero_limit_counterexample:
  "pageItems noFaults (js ''x'') 0 exampleDatabase 1 = [] \<and>
   pageItems noFaults (js ''x'') 0 exampleDatabase 2 = [] \<and>
   map_sum id hasMore (fst (getChatHistoryPaginated noFaults (js ''x'') 1 0 exampleDatabase))
     = Inr True \<and>
   map turn_id (allItems noFaults (js ''x'') exampleDatabase) = [1, 2, 3] \<and>
   \<not> (\<exists>k. set (concat (map (pageItems noFaults (js ''x'') 0 exampleDatabase) [1..<Suc k]))
            = set (rev (allItems noFaults (js ''x'') exampleDatabase)))"
proof -
  have a: "map turn_id (allItems noFaults (js ''x'') exampleDatabase) = [1, 2, 3]"
    by (simp add: db_eval)
  then have ne: "set (rev (allItems noFaults (js ''x'') exampleDatabase)) \<noteq> {}"
    by auto
  have h: "map_sum id hasMore (fst (getChatHistoryPaginated noFaults (js ''x'') 1 0 exampleDatabase))
     = Inr True"
    by (simp add: getChatHistoryPaginated_noFaults turnsOf_def exampleDatabase_def exampleTurn_def)
  show ?thesis
    using a ne h by (simp add: pageItems_zero_limit)
qed


end
